theory Spec2Isabelle
  imports Complex_Main "HOL-Library.Sublist"
begin

section \<open>Data model (types.ts)\<close>

text \<open>
  \<^verbatim>\<open>AssetCategory\<close> is a string enum: at run time a category is one of six strings, and
  \<^verbatim>\<open>Object.values(AssetCategory)\<close> is the list of them in declaration order.
\<close>

definition STOCK :: string where "STOCK = ''Stock''"
definition FUND :: string where "FUND = ''Fund''"
definition BOND :: string where "BOND = ''Bond''"
definition CRYPTO :: string where "CRYPTO = ''Crypto''"
definition CASH :: string where "CASH = ''Cash''"
definition OTHER :: string where "OTHER = ''Other''"

definition AssetCategory_values :: "string list" where
  "AssetCategory_values = [STOCK, FUND, BOND, CRYPTO, CASH, OTHER]"

text \<open>
  An object of the shape of \<^verbatim>\<open>interface Asset\<close>. Every property is optional: the
  extraction client returns \<^verbatim>\<open>Partial<Asset>[]\<close>, and the merge stores such a record with
  the unchecked cast \<^verbatim>\<open>as Asset\<close>, so a stored asset has exactly the properties that
  the records which built it carried. \<open>None\<close> is an absent property (reading it gives
  \<^verbatim>\<open>undefined\<close>). A JavaScript number is modelled by a real: rounding and the infinities are
  outside the model. The property \<^verbatim>\<open>id\<close> is called \<open>asset_id\<close> here.
\<close>

record Asset =
  asset_id :: "string option"
  name :: "string option"
  category :: "string option"
  amount :: "real option"
  returnRate :: "real option"
  currency :: "string option"
  lastUpdated :: "string option"

text \<open>
  A value of type \<^verbatim>\<open>number\<close> that results from arithmetic: \<open>NaN\<close> arises when
  \<^verbatim>\<open>undefined\<close> enters an arithmetic expression.
\<close>

datatype number = NaN | Num real

record HistoryPoint =
  date :: string
  point_totalNetWorth :: number
  point_totalReturnRate :: number

record AnalysisResponse =
  assetAllocationAnalysis :: string
  investmentAdvice :: string
  adjustmentSuggestions :: string

section \<open>JavaScript operators used by the code\<close>

text \<open>\<^verbatim>\<open>!s\<close> is false exactly for a non-empty string; \<^verbatim>\<open>undefined\<close> is falsy.\<close>

fun truthy_str :: "string option \<Rightarrow> bool" where
  "truthy_str None = False"
| "truthy_str (Some s) = (s \<noteq> [])"

text \<open>\<^verbatim>\<open>s || d\<close> on a string or \<^verbatim>\<open>undefined\<close>.\<close>

fun or_str :: "string option \<Rightarrow> string \<Rightarrow> string" where
  "or_str None d = d"
| "or_str (Some s) d = (if s \<noteq> [] then s else d)"

text \<open>\<^verbatim>\<open>x || d\<close> on a number or \<^verbatim>\<open>undefined\<close>: zero and \<^verbatim>\<open>undefined\<close> are falsy.\<close>

fun or_num :: "real option \<Rightarrow> real \<Rightarrow> real" where
  "or_num None d = d"
| "or_num (Some x) d = (if x \<noteq> 0 then x else d)"

text \<open>\<^verbatim>\<open>a.amount || 0\<close>, the amount of a record with an absent amount counted as zero.\<close>

abbreviation amount_or_0 :: "Asset \<Rightarrow> real" where
  "amount_or_0 a \<equiv> or_num (amount a) 0"

text \<open>
  \<^verbatim>\<open>Number(v)\<close>, and the same conversion where a property is read into an arithmetic
  expression: a number stays, \<^verbatim>\<open>undefined\<close> becomes \<open>NaN\<close>.
\<close>

fun Number :: "real option \<Rightarrow> number" where
  "Number None = NaN"
| "Number (Some x) = Num x"

text \<open>\<^verbatim>\<open>n || d\<close> on the result of a conversion: \<open>NaN\<close> and zero are falsy.\<close>

fun number_or :: "number \<Rightarrow> real \<Rightarrow> real" where
  "number_or NaN d = d"
| "number_or (Num x) d = (if x \<noteq> 0 then x else d)"

fun js_add :: "number \<Rightarrow> number \<Rightarrow> number" where
  "js_add (Num a) (Num b) = Num (a + b)"
| "js_add _ _ = NaN"

fun js_mul :: "number \<Rightarrow> number \<Rightarrow> number" where
  "js_mul (Num a) (Num b) = Num (a * b)"
| "js_mul _ _ = NaN"

text \<open>
  Division. Both divisions of the code have a divisor that is not zero (the literal 100,
  and a total that was tested \<^verbatim>\<open>> 0\<close>); a zero divisor would give an infinity or
  \<open>NaN\<close> in JavaScript and is mapped to \<open>NaN\<close> here.
\<close>

fun js_div :: "number \<Rightarrow> number \<Rightarrow> number" where
  "js_div (Num a) (Num b) = (if b = 0 then NaN else Num (a / b))"
| "js_div _ _ = NaN"

text \<open>\<^verbatim>\<open>n > 0\<close>: any comparison with \<open>NaN\<close> is false.\<close>

fun js_gt0 :: "number \<Rightarrow> bool" where
  "js_gt0 (Num a) = (a > 0)"
| "js_gt0 NaN = False"

text \<open>
  \<^verbatim>\<open>Array.prototype.findIndex\<close>: the index of the first element that satisfies the
  predicate, or \<open>-1\<close>.
\<close>

fun findIndex :: "('a \<Rightarrow> bool) \<Rightarrow> 'a list \<Rightarrow> int" where
  "findIndex P [] = - 1"
| "findIndex P (x # xs) =
     (if P x then 0 else (let i = findIndex P xs in if i \<ge> 0 then i + 1 else - 1))"

text \<open>
  Object spread \<^verbatim>\<open>{ ...a, ...b }\<close> on two objects of the shape above: a property of
  \<open>b\<close> wins, a property that \<open>b\<close> lacks keeps the value it has in \<open>a\<close>.
\<close>

definition over :: "'v option \<Rightarrow> 'v option \<Rightarrow> 'v option" where
  "over old new = (case new of Some v \<Rightarrow> Some v | None \<Rightarrow> old)"

definition spread :: "Asset \<Rightarrow> Asset \<Rightarrow> Asset" where
  "spread a b =
     \<lparr> asset_id = over (asset_id a) (asset_id b),
       name = over (name a) (name b),
       category = over (category a) (category b),
       amount = over (amount a) (amount b),
       returnRate = over (returnRate a) (returnRate b),
       currency = over (currency a) (currency b),
       lastUpdated = over (lastUpdated a) (lastUpdated b) \<rparr>"

section \<open>Holdings reconciliation (handleFileUpload, the updater passed to setAssets)\<close>

text \<open>
  The body of the \<^verbatim>\<open>forEach\<close> callback for one extracted record, on the list in
  progress. \<open>now\<close> is the value of \<^verbatim>\<open>new Date().toISOString()\<close> and \<open>uuid\<close> the
  value of \<^verbatim>\<open>crypto.randomUUID()\<close> when they are called for this record.
  \<^verbatim>\<open>
  if(!extracted.name) return;
  const index = newAssets.findIndex(a => a.name === extracted.name);
  if (index >= 0) {
      newAssets[index] = { ...newAssets[index], ...extracted, lastUpdated: new Date().toISOString() } as Asset;
  } else {
      newAssets.push({ ...extracted, id: crypto.randomUUID(), lastUpdated: new Date().toISOString() } as Asset);
  }
  \<close>
\<close>

definition mergeExtracted :: "string \<Rightarrow> string \<Rightarrow> Asset \<Rightarrow> Asset list \<Rightarrow> Asset list" where
  "mergeExtracted now uuid extracted newAssets =
     (if \<not> truthy_str (name extracted) then newAssets
      else
        let index = findIndex (\<lambda>a. name a = name extracted) newAssets in
        if index \<ge> 0 then
          newAssets[nat index :=
            (spread (newAssets ! nat index) extracted)\<lparr>lastUpdated := Some now\<rparr>]
        else
          newAssets @ [extracted\<lparr>asset_id := Some uuid, lastUpdated := Some now\<rparr>])"

text \<open>
  \<^verbatim>\<open>extractedAssets.forEach(...)\<close>: the records in order, each on the list left by the
  one before. \<open>clock i\<close> and \<open>randomUUID i\<close> are what the clock and the identifier
  generator return during the iteration with index \<open>i\<close>.
\<close>

fun forEach_merge ::
  "(nat \<Rightarrow> string) \<Rightarrow> (nat \<Rightarrow> string) \<Rightarrow> nat \<Rightarrow> Asset list \<Rightarrow> Asset list \<Rightarrow> Asset list" where
  "forEach_merge clock randomUUID i [] newAssets = newAssets"
| "forEach_merge clock randomUUID i (extracted # rest) newAssets =
     forEach_merge clock randomUUID (Suc i) rest
       (mergeExtracted (clock i) (randomUUID i) extracted newAssets)"

text \<open>The updater itself: it works on a copy of the previous list and returns it.\<close>

definition mergeAssets ::
  "(nat \<Rightarrow> string) \<Rightarrow> (nat \<Rightarrow> string) \<Rightarrow> Asset list \<Rightarrow> Asset list \<Rightarrow> Asset list" where
  "mergeAssets clock randomUUID prev extractedAssets =
     forEach_merge clock randomUUID 0 extractedAssets prev"

section \<open>Extraction client (parseHoldingsScreenshot)\<close>

text \<open>
  One element of the parsed response (\<^verbatim>\<open>item: any\<close>), as the five property reads of
  the sanitizer see it. The request asks for a JSON array of objects with the string
  properties \<^verbatim>\<open>name\<close>, \<^verbatim>\<open>category\<close>, \<^verbatim>\<open>currency\<close> and the number properties
  \<^verbatim>\<open>amount\<close>, \<^verbatim>\<open>returnRate\<close> (its \<^verbatim>\<open>responseSchema\<close>), and the model reads the
  properties at these types:
  \<^item> \<open>item_name\<close>, \<open>item_category\<close>, \<open>item_currency\<close>: the string, or \<open>None\<close> when
    the property is absent (or \<^verbatim>\<open>null\<close>);
  \<^item> \<open>item_amount\<close>, \<open>item_returnRate\<close>: the number, or \<open>None\<close> when the property
    is absent or holds a value that \<^verbatim>\<open>Number(...)\<close> converts to \<open>NaN\<close>.
  An element that is not an object (a number, a string) has none of the properties.
\<close>

record RawItem =
  item_name :: "string option"
  item_category :: "string option"
  item_amount :: "real option"
  item_returnRate :: "real option"
  item_currency :: "string option"

text \<open>
  What \<^verbatim>\<open>JSON.parse(text)\<close> returned, as far as \<^verbatim>\<open>rawData.map\<close> looks at it: a
  value that is not an array has no \<^verbatim>\<open>map\<close> method, and an array element that is
  \<^verbatim>\<open>null\<close> (\<open>None\<close>) has no properties to read; both raise a TypeError inside the
  \<^verbatim>\<open>try\<close> block.
\<close>

datatype parsed = NotAnArray | Array "RawItem option list"

type_synonym error = string

text \<open>
  The placeholder name, a string of four Chinese characters meaning "unknown asset",
  as its UTF-8 bytes.
\<close>

definition UNKNOWN_ASSET :: string where
  "UNKNOWN_ASSET =
     [CHR 0xE6, CHR 0x9C, CHR 0xAA, CHR 0xE7, CHR 0x9F, CHR 0xA5,
      CHR 0xE8, CHR 0xB5, CHR 0x84, CHR 0xE4, CHR 0xBA, CHR 0xA7]"

text \<open>
  The callback of \<^verbatim>\<open>rawData.map\<close>:
  \<^verbatim>\<open>
  name: item.name || <placeholder>,
  category: Object.values(AssetCategory).includes(item.category) ? item.category : AssetCategory.OTHER,
  amount: Number(item.amount) || 0,
  returnRate: Number(item.returnRate) || 0,
  currency: item.currency || "CNY",
  lastUpdated: new Date().toISOString()
  \<close>
  The object it builds has no \<^verbatim>\<open>id\<close>.
\<close>

definition sanitizeItem :: "string \<Rightarrow> RawItem \<Rightarrow> Asset" where
  "sanitizeItem now item =
     \<lparr> asset_id = None,
       name = Some (or_str (item_name item) UNKNOWN_ASSET),
       category = Some (case item_category item of
                          Some c \<Rightarrow> if c \<in> set AssetCategory_values then c else OTHER
                        | None \<Rightarrow> OTHER),
       amount = Some (number_or (Number (item_amount item)) 0),
       returnRate = Some (number_or (Number (item_returnRate item)) 0),
       currency = Some (or_str (item_currency item) ''CNY''),
       lastUpdated = Some now \<rparr>"

text \<open>
  \<^verbatim>\<open>rawData.map(...)\<close> from the element with index \<open>i\<close> on; \<open>stamp i\<close> is the
  clock's answer while that element is mapped. Reading a property of \<^verbatim>\<open>null\<close> throws,
  and the elements mapped before are lost with it.
\<close>

fun rawData_map :: "(nat \<Rightarrow> string) \<Rightarrow> nat \<Rightarrow> RawItem option list \<Rightarrow> error + Asset list" where
  "rawData_map stamp i [] = Inr []"
| "rawData_map stamp i (None # items) = Inl ''TypeError''"
| "rawData_map stamp i (Some item # items) =
     (case rawData_map stamp (Suc i) items of
        Inl e \<Rightarrow> Inl e
      | Inr rest \<Rightarrow> Inr (sanitizeItem (stamp i) item # rest))"

text \<open>
  The client after the request is built. \<open>generateContent\<close> is the remote call
  followed by \<^verbatim>\<open>response.text\<close>: it throws (\<open>Inl\<close>), or gives a text, or none.
  \<open>JSON_parse\<close> is \<^verbatim>\<open>JSON.parse\<close>, which throws on a text that is not JSON. The
  \<^verbatim>\<open>await\<close> of the remote call is outside the \<^verbatim>\<open>try\<close> block, so its exception
  leaves the function; an exception of the parsing or of the mapping is caught and
  answered with the empty list.
\<close>

definition parseHoldingsScreenshot ::
  "(string \<Rightarrow> error + string option) \<Rightarrow> (string \<Rightarrow> error + parsed) \<Rightarrow> (nat \<Rightarrow> string) \<Rightarrow>
     string \<Rightarrow> error + Asset list" where
  "parseHoldingsScreenshot generateContent JSON_parse stamp base64Image =
     (case generateContent base64Image of
        Inl err \<Rightarrow> Inl err
      | Inr None \<Rightarrow> Inr []
      | Inr (Some responseText) \<Rightarrow>
          if \<not> truthy_str (Some responseText) then Inr []
          else
            (case JSON_parse responseText of
               Inl e \<Rightarrow> Inr []
             | Inr NotAnArray \<Rightarrow> Inr []
             | Inr (Array rawData) \<Rightarrow>
                 (case rawData_map stamp 0 rawData of
                    Inl e \<Rightarrow> Inr []
                  | Inr sanitized \<Rightarrow> Inr sanitized)))"

section \<open>Derived metrics (recomputed by App on every render)\<close>

text \<open>
  \<^verbatim>\<open>
  const totalNetWorth = assets.reduce((sum, a) => sum + a.amount, 0);
  const totalReturn = assets.reduce((sum, a) => sum + (a.amount * (a.returnRate / 100)), 0);
  const totalReturnRate = totalNetWorth > 0 ? (totalReturn / totalNetWorth) * 100 : 0;
  \<close>
\<close>

definition totalNetWorth :: "Asset list \<Rightarrow> number" where
  "totalNetWorth assets = foldl (\<lambda>sum a. js_add sum (Number (amount a))) (Num 0) assets"

definition totalReturn :: "Asset list \<Rightarrow> number" where
  "totalReturn assets =
     foldl (\<lambda>sum a. js_add sum (js_mul (Number (amount a)) (js_div (Number (returnRate a)) (Num 100))))
       (Num 0) assets"

definition totalReturnRate :: "Asset list \<Rightarrow> number" where
  "totalReturnRate assets =
     (if js_gt0 (totalNetWorth assets)
      then js_mul (js_div (totalReturn assets) (totalNetWorth assets)) (Num 100)
      else Num 0)"

section \<open>History update (handleFileUpload, the updater passed to setHistory)\<close>

text \<open>\<^verbatim>\<open>isoString.split('T')[0]\<close>: the text before the first \<open>T\<close>.\<close>

definition split_T_0 :: "string \<Rightarrow> string" where
  "split_T_0 isoString = takeWhile (\<lambda>c. c \<noteq> CHR ''T'') isoString"

text \<open>
  \<^verbatim>\<open>
  const existingTodayIndex = prev.findIndex(h => h.date.startsWith(todayStr));
  const newPoint: HistoryPoint = {
      date: todayStr,
      totalNetWorth: totalNetWorth + (extractedAssets.reduce((s, a) => s + (a.amount || 0), 0)),
      totalReturnRate: totalReturnRate
  };
  if (existingTodayIndex >= 0) { const copy = [...prev]; copy[existingTodayIndex] = newPoint; return copy; }
  else { return [...prev, newPoint]; }
  \<close>
  \<open>netWorth\<close> and \<open>returnRate'\<close> are the two values of the render that created the
  handler.
\<close>

definition extractedSum :: "Asset list \<Rightarrow> number" where
  "extractedSum extractedAssets =
     foldl (\<lambda>s a. js_add s (Num (or_num (amount a) 0))) (Num 0) extractedAssets"

definition newPoint :: "string \<Rightarrow> number \<Rightarrow> number \<Rightarrow> Asset list \<Rightarrow> HistoryPoint" where
  "newPoint todayStr netWorth returnRate' extractedAssets =
     \<lparr> date = todayStr,
       point_totalNetWorth = js_add netWorth (extractedSum extractedAssets),
       point_totalReturnRate = returnRate' \<rparr>"

definition updateHistory ::
  "string \<Rightarrow> number \<Rightarrow> number \<Rightarrow> Asset list \<Rightarrow> HistoryPoint list \<Rightarrow> HistoryPoint list" where
  "updateHistory todayStr netWorth returnRate' extractedAssets prev =
     (let existingTodayIndex = findIndex (\<lambda>h. prefix todayStr (date h)) prev in
      if existingTodayIndex \<ge> 0
      then prev[nat existingTodayIndex := newPoint todayStr netWorth returnRate' extractedAssets]
      else prev @ [newPoint todayStr netWorth returnRate' extractedAssets])"

text \<open>
  The calendar day a date string lies on: its first ten characters, \<^verbatim>\<open>YYYY-MM-DD\<close>.
  Every date the code writes is such a day (\<^verbatim>\<open>toISOString().split('T')[0]\<close>), and
  then \<open>day_of\<close> is the identity; a date that also carries a time of day lies on the
  day it starts with, which is how the \<^verbatim>\<open>startsWith\<close> test above reads it.
\<close>

definition day_of :: "string \<Rightarrow> string" where
  "day_of d = take 10 d"

section \<open>Analysis client (generateWealthAnalysis)\<close>

text \<open>
  The analysis client (\<open>generateWealthAnalysis\<close>) after the prompt is built from the
  assets. \<open>analysisContent\<close> is the remote call on that prompt followed by
  \<^verbatim>\<open>response.text\<close>; \<open>JSON_parse_analysis\<close> is \<^verbatim>\<open>JSON.parse(text) as AnalysisResponse\<close>.
  Nothing is caught here: every exception leaves the function.
  \<^verbatim>\<open>
  const text = response.text;
  if (!text) throw new Error("No analysis generated");
  return JSON.parse(text) as AnalysisResponse;
  \<close>
\<close>

definition generateWealthAnalysis ::
  "(Asset list \<Rightarrow> error + string option) \<Rightarrow> (string \<Rightarrow> error + AnalysisResponse) \<Rightarrow>
     Asset list \<Rightarrow> error + AnalysisResponse" where
  "generateWealthAnalysis analysisContent JSON_parse_analysis assets =
     (case analysisContent assets of
        Inl err \<Rightarrow> Inl err
      | Inr None \<Rightarrow> Inl ''No analysis generated''
      | Inr (Some responseText) \<Rightarrow>
          if \<not> truthy_str (Some responseText) then Inl ''No analysis generated''
          else JSON_parse_analysis responseText)"

section \<open>The two handlers of App\<close>

record AppState =
  assets :: "Asset list"
  history :: "HistoryPoint list"
  analysis :: "AnalysisResponse option"
  isUploading :: bool
  isAnalyzing :: bool

text \<open>
  What a handler does besides changing the state, as the user and the two services
  see it: the notices it shows with \<^verbatim>\<open>alert\<close> (four fixed Chinese sentences: the
  screenshot was parsed and the holdings updated; parsing the screenshot failed; add
  assets before running the analysis; the analysis could not be generated) and the
  requests it sends. Console output is left out.
\<close>

datatype notice = UploadSucceeded | UploadFailed | AddAssetsFirst | AnalysisFailed

datatype effect =
  Alert notice
| ExtractionRequest string
| AnalysisRequest "Asset list"

text \<open>
  Everything the handlers get from outside the component: the outcome of reading the
  file (\<^verbatim>\<open>fileToGenerativePart\<close>), the two remote calls, \<^verbatim>\<open>JSON.parse\<close> on their
  answers, the clock as the sanitizer, the merge and the history updater read it, and
  the identifier generator.
\<close>

record World =
  fileToGenerativePart :: "string \<Rightarrow> error + string"
  generateContent :: "string \<Rightarrow> error + string option"
  JSON_parse :: "string \<Rightarrow> error + parsed"
  analysisContent :: "Asset list \<Rightarrow> error + string option"
  JSON_parse_analysis :: "string \<Rightarrow> error + AnalysisResponse"
  stamp :: "nat \<Rightarrow> string"
  clock :: "nat \<Rightarrow> string"
  randomUUID :: "nat \<Rightarrow> string"
  todayISO :: string

text \<open>
  \<open>handleFileUpload\<close>; \<open>file\<close> is \<^verbatim>\<open>event.target.files?.[0]\<close>. The totals that go
  into the history point are those of the list before the merge. The \<^verbatim>\<open>finally\<close>
  block clears the busy flag on every path that entered the \<^verbatim>\<open>try\<close>.
\<close>

definition handleFileUpload :: "World \<Rightarrow> string option \<Rightarrow> AppState \<Rightarrow> AppState \<times> effect list" where
  "handleFileUpload w file s =
     (case file of
        None \<Rightarrow> (s, [])
      | Some f \<Rightarrow>
          (case fileToGenerativePart w f of
             Inl err \<Rightarrow> (s\<lparr>isUploading := False\<rparr>, [Alert UploadFailed])
           | Inr base64 \<Rightarrow>
               (case parseHoldingsScreenshot (generateContent w) (JSON_parse w) (stamp w) base64 of
                  Inl err \<Rightarrow>
                    (s\<lparr>isUploading := False\<rparr>, [ExtractionRequest base64, Alert UploadFailed])
                | Inr extractedAssets \<Rightarrow>
                    (s\<lparr> assets := mergeAssets (clock w) (randomUUID w) (assets s) extractedAssets,
                        history := updateHistory (split_T_0 (todayISO w)) (totalNetWorth (assets s))
                                     (totalReturnRate (assets s)) extractedAssets (history s),
                        isUploading := False \<rparr>,
                     [ExtractionRequest base64, Alert UploadSucceeded]))))"

text \<open>
  \<open>handleRunAnalysis\<close>:
  \<^verbatim>\<open>
  if (assets.length === 0) { alert(...); return; }
  setIsAnalyzing(true);
  try { const result = await generateWealthAnalysis(assets); setAnalysis(result); }
  catch (error) { console.error(error); alert(...); }
  finally { setIsAnalyzing(false); }
  \<close>
\<close>

definition handleRunAnalysis :: "World \<Rightarrow> AppState \<Rightarrow> AppState \<times> effect list" where
  "handleRunAnalysis w s =
     (if length (assets s) = 0 then (s, [Alert AddAssetsFirst])
      else
        (case generateWealthAnalysis (analysisContent w) (JSON_parse_analysis w) (assets s) of
           Inr result \<Rightarrow>
             (s\<lparr>analysis := Some result, isAnalyzing := False\<rparr>, [AnalysisRequest (assets s)])
         | Inl err \<Rightarrow>
             (s\<lparr>isAnalyzing := False\<rparr>, [AnalysisRequest (assets s), Alert AnalysisFailed])))"

section \<open>Facts about findIndex and find\<close>

lemma findIndex_nonneg_iff: "findIndex P xs \<ge> 0 \<longleftrightarrow> (\<exists>x \<in> set xs. P x)"
  by (induction xs) (auto simp: Let_def)

lemma findIndex_first:
  "findIndex P xs \<ge> 0 \<Longrightarrow>
     nat (findIndex P xs) < length xs \<and> P (xs ! nat (findIndex P xs)) \<and>
     (\<forall>j < nat (findIndex P xs). \<not> P (xs ! j))"
proof (induction xs)
  case Nil
  then show ?case by simp
next
  case (Cons x xs)
  show ?case
  proof (cases "P x")
    case True
    then show ?thesis by simp
  next
    case False
    with Cons.prems have ge: "findIndex P xs \<ge> 0"
      by (simp add: Let_def split: if_splits)
    have eq: "nat (findIndex P (x # xs)) = Suc (nat (findIndex P xs))"
      using False ge by (simp add: Let_def nat_add_distrib)
    from Cons.IH [OF ge] False show ?thesis
      unfolding eq by (auto simp: less_Suc_eq_0_disj)
  qed
qed

lemma findIndex_append_last:
  "\<forall>x \<in> set xs. \<not> P x \<Longrightarrow> P v \<Longrightarrow> findIndex P (xs @ [v]) = int (length xs)"
  by (induction xs) (auto simp: Let_def)

lemma find_findIndex:
  "find P xs = (if findIndex P xs \<ge> 0 then Some (xs ! nat (findIndex P xs)) else None)"
proof (induction xs)
  case Nil
  then show ?case by simp
next
  case (Cons x xs)
  show ?case
  proof (cases "P x")
    case True
    then show ?thesis by simp
  next
    case False
    show ?thesis
    proof (cases "findIndex P xs \<ge> 0")
      case True
      then have "nat (findIndex P xs + 1) = Suc (nat (findIndex P xs))" by simp
      with True False Cons.IH show ?thesis by (simp add: Let_def)
    next
      case neg: False
      with False Cons.IH show ?thesis by (simp add: Let_def)
    qed
  qed
qed

lemma find_update_other:
  "i < length xs \<Longrightarrow> \<not> P (xs ! i) \<Longrightarrow> \<not> P v \<Longrightarrow> find P (xs[i := v]) = find P xs"
proof (induction xs arbitrary: i)
  case Nil
  then show ?case by simp
next
  case (Cons x xs)
  then show ?case by (cases i) simp_all
qed

lemma find_snoc: "\<not> P v \<Longrightarrow> find P (xs @ [v]) = find P xs"
  by (induction xs) simp_all

section \<open>Facts about one step of the merge\<close>

text \<open>The three branches of the callback: return at once, overwrite, push.\<close>

lemma mergeExtracted_insert:
  "truthy_str (name e) \<Longrightarrow> \<forall>a \<in> set held. name a \<noteq> name e \<Longrightarrow>
   mergeExtracted now uuid e held = held @ [e\<lparr>asset_id := Some uuid, lastUpdated := Some now\<rparr>]"
  using findIndex_nonneg_iff [of "\<lambda>a. name a = name e" held]
  by (simp add: mergeExtracted_def Let_def)

lemma mergeExtracted_cases:
  obtains (skip) "\<not> truthy_str (name e)" "mergeExtracted now uuid e held = held"
  | (update) i where "truthy_str (name e)" "i < length held" "name (held ! i) = name e"
      "\<forall>j < i. name (held ! j) \<noteq> name e"
      "find (\<lambda>a. name a = name e) held = Some (held ! i)"
      "mergeExtracted now uuid e held = held[i := (spread (held ! i) e)\<lparr>lastUpdated := Some now\<rparr>]"
  | (insert) "truthy_str (name e)" "\<forall>a \<in> set held. name a \<noteq> name e"
      "mergeExtracted now uuid e held = held @ [e\<lparr>asset_id := Some uuid, lastUpdated := Some now\<rparr>]"
proof (cases "truthy_str (name e)")
  case False
  then show ?thesis using skip by (simp add: mergeExtracted_def)
next
  case True
  let ?k = "findIndex (\<lambda>a. name a = name e) held"
  show ?thesis
  proof (cases "?k \<ge> 0")
    case ge: True
    from findIndex_first [OF ge]
    have "nat ?k < length held" "name (held ! nat ?k) = name e"
      "\<forall>j < nat ?k. name (held ! j) \<noteq> name e"
      by auto
    moreover have "find (\<lambda>a. name a = name e) held = Some (held ! nat ?k)"
      using ge by (simp add: find_findIndex)
    moreover have "mergeExtracted now uuid e held =
        held[nat ?k := (spread (held ! nat ?k) e)\<lparr>lastUpdated := Some now\<rparr>]"
      using True ge by (simp add: mergeExtracted_def Let_def)
    ultimately show ?thesis using update True by blast
  next
    case False
    then have none: "\<forall>a \<in> set held. name a \<noteq> name e"
      by (simp add: findIndex_nonneg_iff)
    from mergeExtracted_insert [OF True none] show ?thesis using insert True none by blast
  qed
qed

lemma name_spread: "name e = Some n \<Longrightarrow> name ((spread a e)\<lparr>lastUpdated := t\<rparr>) = Some n"
  by (simp add: spread_def over_def)

lemma mergeExtracted_names:
  "map name (mergeExtracted now uuid e held) =
     (if truthy_str (name e) \<and> name e \<notin> set (map name held)
      then map name held @ [name e] else map name held)"
proof (cases rule: mergeExtracted_cases [where e = e and held = held and now = now and uuid = uuid])
  case skip
  then show ?thesis by simp
next
  case (update i)
  from update(1) obtain n where n: "name e = Some n" by (cases "name e") auto
  have "map name (held[i := (spread (held ! i) e)\<lparr>lastUpdated := Some now\<rparr>]) = map name held"
    using update(2,3) n by (simp add: map_update name_spread list_update_same_conv)
  moreover from update(2,3) have "name e \<in> set (map name held)"
    by (metis image_eqI nth_mem set_map)
  ultimately show ?thesis using update(6) by simp
next
  case insert
  then show ?thesis by auto
qed

text \<open>An asset whose name is not the record's stays where it is and as it is.\<close>

lemma step_keeps_other:
  assumes "i < length held" and "name (held ! i) \<noteq> name e"
  shows "i < length (mergeExtracted now uuid e held) \<and> mergeExtracted now uuid e held ! i = held ! i"
proof (cases rule: mergeExtracted_cases [where e = e and held = held and now = now and uuid = uuid])
  case skip
  with assms(1) show ?thesis by simp
next
  case (update k)
  with assms(2) have "k \<noteq> i" by auto
  with update(6) assms(1) show ?thesis by simp
next
  case insert
  with assms(1) show ?thesis by (simp add: nth_append)
qed

section \<open>Facts about the amounts along the merge\<close>

lemma or_num_Some_0 [simp]: "or_num (Some x) 0 = x"
  by simp

lemma amount_or_0_case: "amount_or_0 a = (case amount a of Some x \<Rightarrow> x | None \<Rightarrow> 0)"
  by (cases "amount a") simp_all

lemma sum_list_map_update:
  fixes f :: "'a \<Rightarrow> real"
  shows "i < length xs \<Longrightarrow>
    sum_list (map f (xs[i := v])) = sum_list (map f xs) - f (xs ! i) + f v"
proof (induction xs arbitrary: i)
  case Nil
  then show ?case by simp
next
  case (Cons x xs)
  then show ?case by (cases i) simp_all
qed

lemma amount_or_0_spread:
  "amount_or_0 (spread a e) = (case amount e of Some x \<Rightarrow> x | None \<Rightarrow> amount_or_0 a)"
  by (simp add: spread_def over_def split: option.splits)

lemma step_sum_le:
  assumes "0 \<le> amount_or_0 e" and "\<forall>a \<in> set held. 0 \<le> amount_or_0 a"
  shows "sum_list (map amount_or_0 (mergeExtracted now uuid e held))
           \<le> sum_list (map amount_or_0 held) + amount_or_0 e"
proof (cases rule: mergeExtracted_cases [where e = e and held = held and now = now and uuid = uuid])
  case skip
  with assms(1) show ?thesis by simp
next
  case (update i)
  from assms(2) update(2) have old: "0 \<le> amount_or_0 (held ! i)" by simp
  have "amount_or_0 ((spread (held ! i) e)\<lparr>lastUpdated := Some now\<rparr>)
          \<le> amount_or_0 (held ! i) + amount_or_0 e"
    using old assms(1) by (cases "amount e") (simp_all add: amount_or_0_spread split: if_splits)
  with update(2,6) show ?thesis by (simp add: sum_list_map_update)
next
  case insert
  then show ?thesis by simp
qed

lemma step_sum_lt:
  assumes "truthy_str (name e)" and "amount e = Some x"
    and "find (\<lambda>a. name a = name e) held = Some a" and "0 < amount_or_0 a"
  shows "sum_list (map amount_or_0 (mergeExtracted now uuid e held))
           < sum_list (map amount_or_0 held) + amount_or_0 e"
proof (cases rule: mergeExtracted_cases [where e = e and held = held and now = now and uuid = uuid])
  case skip
  with assms(1) show ?thesis by simp
next
  case (update i)
  with assms(3) have a: "a = held ! i" by simp
  have "amount_or_0 ((spread (held ! i) e)\<lparr>lastUpdated := Some now\<rparr>) = amount_or_0 e"
    using assms(2) by (simp add: amount_or_0_spread)
  with update(2,6) assms(4) a show ?thesis by (simp add: sum_list_map_update)
next
  case insert
  from assms(3) have "a \<in> set held \<and> name a = name e"
    by (auto simp: find_Some_iff)
  with insert(2) show ?thesis by blast
qed

lemma step_nonneg:
  assumes "0 \<le> amount_or_0 e" and "\<forall>a \<in> set held. 0 \<le> amount_or_0 a"
  shows "\<forall>a \<in> set (mergeExtracted now uuid e held). 0 \<le> amount_or_0 a"
proof (cases rule: mergeExtracted_cases [where e = e and held = held and now = now and uuid = uuid])
  case skip
  with assms(2) show ?thesis by simp
next
  case (update i)
  from assms(2) update(2) have old: "0 \<le> amount_or_0 (held ! i)" by simp
  have new: "0 \<le> amount_or_0 ((spread (held ! i) e)\<lparr>lastUpdated := Some now\<rparr>)"
    using old assms(1) by (cases "amount e") (simp_all add: amount_or_0_spread split: if_splits)
  show ?thesis
  proof
    fix a assume "a \<in> set (mergeExtracted now uuid e held)"
    with update(6) have "a \<in> insert ((spread (held ! i) e)\<lparr>lastUpdated := Some now\<rparr>) (set held)"
      using set_update_subset_insert by fastforce
    with new assms(2) show "0 \<le> amount_or_0 a" by auto
  qed
next
  case insert
  with assms show ?thesis by simp
qed

lemma step_present:
  assumes "amount e \<noteq> None" and "\<forall>a \<in> set held. amount a \<noteq> None"
  shows "\<forall>a \<in> set (mergeExtracted now uuid e held). amount a \<noteq> None"
proof (cases rule: mergeExtracted_cases [where e = e and held = held and now = now and uuid = uuid])
  case skip
  with assms(2) show ?thesis by simp
next
  case (update i)
  have new: "amount ((spread (held ! i) e)\<lparr>lastUpdated := Some now\<rparr>) \<noteq> None"
    using assms(1) by (auto simp: spread_def over_def)
  show ?thesis
  proof
    fix a assume "a \<in> set (mergeExtracted now uuid e held)"
    with update(6) have "a \<in> insert ((spread (held ! i) e)\<lparr>lastUpdated := Some now\<rparr>) (set held)"
      using set_update_subset_insert by fastforce
    with new assms(2) show "amount a \<noteq> None" by auto
  qed
next
  case insert
  with assms show ?thesis by simp
qed

lemma step_inv:
  assumes "amount e \<noteq> None \<and> 0 \<le> amount_or_0 e"
    and "\<forall>a \<in> set xs. amount a \<noteq> None \<and> 0 \<le> amount_or_0 a"
  shows "\<forall>a \<in> set (mergeExtracted now uuid e xs). amount a \<noteq> None \<and> 0 \<le> amount_or_0 a"
proof -
  from assms have "\<forall>a \<in> set (mergeExtracted now uuid e xs). amount a \<noteq> None"
    by (intro step_present) blast+
  moreover from assms have "\<forall>a \<in> set (mergeExtracted now uuid e xs). 0 \<le> amount_or_0 a"
    by (intro step_nonneg) blast+
  ultimately show ?thesis by blast
qed

lemma step_find_other:
  assumes "name e \<noteq> Some n"
  shows "find (\<lambda>a. name a = Some n) (mergeExtracted now uuid e held)
           = find (\<lambda>a. name a = Some n) held"
proof (cases rule: mergeExtracted_cases [where e = e and held = held and now = now and uuid = uuid])
  case skip
  then show ?thesis by simp
next
  case (update i)
  have "name ((spread (held ! i) e)\<lparr>lastUpdated := Some now\<rparr>) = name e"
    using update(1) by (cases "name e") (simp_all add: spread_def over_def)
  with update(2,3,6) assms show ?thesis by (simp add: find_update_other)
next
  case insert
  with assms show ?thesis by (simp add: find_snoc)
qed

section \<open>Facts about a whole pass of the merge\<close>

lemma count_filter_name:
  "length (filter (\<lambda>a. name a = Some n) xs) = count_list (map name xs) (Some n)"
  by (induction xs) auto

text \<open>
  How many assets carry a given non-empty name after a pass: as many as before when
  the name was there, and otherwise one if some record has the name and none if not.
\<close>

lemma forEach_merge_count:
  assumes "n \<noteq> []"
  shows "count_list (map name (forEach_merge ck uu i es xs)) (Some n) =
     (if Some n \<in> set (map name xs) then count_list (map name xs) (Some n)
      else if Some n \<in> name ` set es then 1 else 0)"
proof (induction es arbitrary: xs i)
  case Nil
  then show ?case by (simp add: count_list_0_iff)
next
  case (Cons e es)
  let ?xs' = "mergeExtracted (ck i) (uu i) e xs"
  have names: "map name ?xs' =
     (if truthy_str (name e) \<and> name e \<notin> set (map name xs)
      then map name xs @ [name e] else map name xs)"
    by (rule mergeExtracted_names)
  have tr: "name e = Some n \<Longrightarrow> truthy_str (name e)"
    using assms by simp
  show ?case
  proof (cases "Some n \<in> set (map name xs)")
    case True
    then have "Some n \<in> set (map name ?xs')"
      "count_list (map name ?xs') (Some n) = count_list (map name xs) (Some n)"
      unfolding names by auto
    with Cons.IH [of "Suc i" ?xs'] True show ?thesis by simp
  next
    case False
    show ?thesis
    proof (cases "name e = Some n")
      case True
      with False tr have "map name ?xs' = map name xs @ [Some n]"
        unfolding names by simp
      then have "Some n \<in> set (map name ?xs')" "count_list (map name ?xs') (Some n) = 1"
        using False by (simp_all add: count_list_0_iff)
      with Cons.IH [of "Suc i" ?xs'] False True show ?thesis by simp
    next
      case ne: False
      with False have "Some n \<notin> set (map name ?xs')"
        unfolding names by auto
      with Cons.IH [of "Suc i" ?xs'] False ne show ?thesis by auto
    qed
  qed
qed

lemma forEach_merge_append:
  "forEach_merge ck uu k (es1 @ es2) xs =
     forEach_merge ck uu (k + length es1) es2 (forEach_merge ck uu k es1 xs)"
  by (induction es1 arbitrary: k xs) simp_all

text \<open>A non-empty name that some record of the batch has is in the list after the pass.\<close>

lemma forEach_merge_has_name:
  assumes "n \<noteq> []" and "Some n \<in> name ` set es"
  shows "Some n \<in> set (map name (forEach_merge ck uu k es xs))"
proof -
  have "count_list (map name (forEach_merge ck uu k es xs)) (Some n) \<noteq> 0"
  proof (cases "Some n \<in> set (map name xs)")
    case True
    then have "count_list (map name xs) (Some n) \<noteq> 0"
      by (simp only: count_list_0_iff not_not)
    with True forEach_merge_count [OF assms(1), of ck uu k es xs] show ?thesis by simp
  next
    case False
    with assms(2) forEach_merge_count [OF assms(1), of ck uu k es xs] show ?thesis by simp
  qed
  then show ?thesis by (simp only: count_list_0_iff not_not)
qed

lemma forEach_merge_keeps_other:
  assumes "i < length xs" and "name (xs ! i) \<notin> name ` set es"
  shows "i < length (forEach_merge ck uu k es xs) \<and> forEach_merge ck uu k es xs ! i = xs ! i"
  using assms
proof (induction es arbitrary: xs k)
  case Nil
  then show ?case by simp
next
  case (Cons e es)
  let ?xs' = "mergeExtracted (ck k) (uu k) e xs"
  from Cons.prems have ne: "name (xs ! i) \<noteq> name e" by auto
  from step_keeps_other [OF Cons.prems(1) ne, of "ck k" "uu k"]
  have lt: "i < length ?xs'" and same: "?xs' ! i = xs ! i" by simp_all
  from Cons.prems(2) same have "name (?xs' ! i) \<notin> name ` set es" by simp
  from Cons.IH [OF lt this, of "Suc k"] same show ?case by simp
qed

lemma forEach_merge_skips:
  "\<forall>e \<in> set es. \<not> truthy_str (name e) \<Longrightarrow> forEach_merge ck uu i es xs = xs"
  by (induction es arbitrary: i) (simp_all add: mergeExtracted_def)

lemma forEach_nonneg_present:
  assumes "\<forall>e \<in> set es. amount e \<noteq> None \<and> 0 \<le> amount_or_0 e"
    and "\<forall>a \<in> set xs. amount a \<noteq> None \<and> 0 \<le> amount_or_0 a"
  shows "\<forall>a \<in> set (forEach_merge ck uu i es xs). amount a \<noteq> None \<and> 0 \<le> amount_or_0 a"
  using assms
proof (induction es arbitrary: xs i)
  case Nil
  then show ?case by simp
next
  case (Cons e es)
  let ?xs' = "mergeExtracted (ck i) (uu i) e xs"
  from Cons.prems(1) have e0: "amount e \<noteq> None \<and> 0 \<le> amount_or_0 e" by simp
  have "\<forall>a \<in> set ?xs'. amount a \<noteq> None \<and> 0 \<le> amount_or_0 a"
    by (rule step_inv [OF e0 Cons.prems(2)])
  with Cons.IH [of ?xs' "Suc i"] Cons.prems(1) show ?case by simp
qed

lemma forEach_sum_le:
  assumes "\<forall>e \<in> set es. amount e \<noteq> None \<and> 0 \<le> amount_or_0 e"
    and "\<forall>a \<in> set xs. amount a \<noteq> None \<and> 0 \<le> amount_or_0 a"
  shows "sum_list (map amount_or_0 (forEach_merge ck uu i es xs))
           \<le> sum_list (map amount_or_0 xs) + sum_list (map amount_or_0 es)"
  using assms
proof (induction es arbitrary: xs i)
  case Nil
  then show ?case by simp
next
  case (Cons e es)
  let ?xs' = "mergeExtracted (ck i) (uu i) e xs"
  from Cons.prems(1) have e0: "amount e \<noteq> None \<and> 0 \<le> amount_or_0 e" by simp
  have inv: "\<forall>a \<in> set ?xs'. amount a \<noteq> None \<and> 0 \<le> amount_or_0 a"
    by (rule step_inv [OF e0 Cons.prems(2)])
  from Cons.prems have step:
    "sum_list (map amount_or_0 ?xs') \<le> sum_list (map amount_or_0 xs) + amount_or_0 e"
    by (intro step_sum_le) simp_all
  from Cons.IH [of ?xs' "Suc i"] Cons.prems(1) inv
  have "sum_list (map amount_or_0 (forEach_merge ck uu (Suc i) es ?xs')) \<le>
        sum_list (map amount_or_0 ?xs') + sum_list (map amount_or_0 es)"
    by simp
  with step show ?case by simp
qed

text \<open>
  Amounts being present and not negative, the total after the pass stays below the
  total before it plus the records' amounts as soon as one record overwrites an asset
  that held a positive amount.
\<close>

lemma forEach_sum_lt:
  assumes "\<forall>e \<in> set es. amount e \<noteq> None \<and> 0 \<le> amount_or_0 e"
    and "\<forall>a \<in> set xs. amount a \<noteq> None \<and> 0 \<le> amount_or_0 a"
    and "\<exists>e \<in> set es. truthy_str (name e) \<and>
           (\<exists>a. find (\<lambda>a. name a = name e) xs = Some a \<and> 0 < amount_or_0 a)"
  shows "sum_list (map amount_or_0 (forEach_merge ck uu i es xs))
           < sum_list (map amount_or_0 xs) + sum_list (map amount_or_0 es)"
  using assms
proof (induction es arbitrary: xs i)
  case Nil
  then show ?case by simp
next
  case (Cons e es)
  let ?xs' = "mergeExtracted (ck i) (uu i) e xs"
  from Cons.prems(1) have e0: "amount e \<noteq> None \<and> 0 \<le> amount_or_0 e" by simp
  have inv: "\<forall>a \<in> set ?xs'. amount a \<noteq> None \<and> 0 \<le> amount_or_0 a"
    by (rule step_inv [OF e0 Cons.prems(2)])
  from Cons.prems(1) have es: "\<forall>e \<in> set es. amount e \<noteq> None \<and> 0 \<le> amount_or_0 e" by simp
  from Cons.prems(1) obtain x where x: "amount e = Some x" by auto
  from Cons.prems(3) obtain e' a where e': "e' \<in> set (e # es)" "truthy_str (name e')"
    "find (\<lambda>a. name a = name e') xs = Some a" "0 < amount_or_0 a"
    by blast
  show ?case
  proof (cases "name e = name e'")
    case True
    with e' have "sum_list (map amount_or_0 ?xs') < sum_list (map amount_or_0 xs) + amount_or_0 e"
      by (intro step_sum_lt [OF _ x]) simp_all
    moreover have "sum_list (map amount_or_0 (forEach_merge ck uu (Suc i) es ?xs')) \<le>
        sum_list (map amount_or_0 ?xs') + sum_list (map amount_or_0 es)"
      by (rule forEach_sum_le [OF es inv])
    ultimately show ?thesis by simp
  next
    case False
    with e'(1) have in_es: "e' \<in> set es" by auto
    from e'(2) obtain n where n: "name e' = Some n" by (cases "name e'") auto
    from False n have "find (\<lambda>a. name a = Some n) ?xs' = find (\<lambda>a. name a = Some n) xs"
      by (intro step_find_other) simp
    with e'(3) n have "find (\<lambda>a. name a = name e') ?xs' = Some a" by simp
    with in_es e'(2,4) have "\<exists>e \<in> set es. truthy_str (name e) \<and>
           (\<exists>a. find (\<lambda>a. name a = name e) ?xs' = Some a \<and> 0 < amount_or_0 a)"
      by blast
    from Cons.IH [OF es inv this, of "Suc i"]
    have "sum_list (map amount_or_0 (forEach_merge ck uu (Suc i) es ?xs')) <
        sum_list (map amount_or_0 ?xs') + sum_list (map amount_or_0 es)" .
    moreover from Cons.prems(1,2)
    have "sum_list (map amount_or_0 ?xs') \<le> sum_list (map amount_or_0 xs) + amount_or_0 e"
      by (intro step_sum_le) simp_all
    ultimately show ?thesis by simp
  qed
qed

section \<open>Facts about the totals\<close>

lemma foldl_js_add_Num:
  "foldl (\<lambda>s a. js_add s (Num (f a))) (Num z) xs = Num (z + sum_list (map f xs))"
  by (induction xs arbitrary: z) (simp_all add: add.assoc)

lemma extractedSum_eq: "extractedSum es = Num (sum_list (map amount_or_0 es))"
  using foldl_js_add_Num [of amount_or_0 0 es] by (simp add: extractedSum_def)

lemma totalNetWorth_amount_or_0:
  assumes "\<forall>a \<in> set xs. amount a \<noteq> None"
  shows "totalNetWorth xs = Num (sum_list (map amount_or_0 xs))"
proof -
  have "\<And>z. \<forall>a \<in> set xs. amount a \<noteq> None \<Longrightarrow>
      foldl (\<lambda>sum a. js_add sum (Number (amount a))) (Num z) xs =
      Num (z + sum_list (map amount_or_0 xs))"
    by (induction xs) (auto simp: add.assoc)
  from this [of 0, OF assms] show ?thesis by (simp add: totalNetWorth_def)
qed

lemma totalNetWorth_present:
  assumes "\<forall>a \<in> set held. amount a \<noteq> None"
  shows "totalNetWorth held = Num (sum_list (map (\<lambda>a. the (amount a)) held))"
proof -
  have "\<And>z. \<forall>a \<in> set held. amount a \<noteq> None \<Longrightarrow>
      foldl (\<lambda>sum a. js_add sum (Number (amount a))) (Num z) held =
      Num (z + sum_list (map (\<lambda>a. the (amount a)) held))"
    by (induction held) (auto simp: add.assoc)
  from this [of 0, OF assms] show ?thesis by (simp add: totalNetWorth_def)
qed

lemma totalReturn_present:
  assumes "\<forall>a \<in> set held. amount a \<noteq> None \<and> returnRate a \<noteq> None"
  shows "totalReturn held =
     Num (sum_list (map (\<lambda>a. the (amount a) * (the (returnRate a) / 100)) held))"
proof -
  have "\<And>z. \<forall>a \<in> set held. amount a \<noteq> None \<and> returnRate a \<noteq> None \<Longrightarrow>
      foldl (\<lambda>sum a. js_add sum (js_mul (Number (amount a)) (js_div (Number (returnRate a)) (Num 100))))
        (Num z) held =
      Num (z + sum_list (map (\<lambda>a. the (amount a) * (the (returnRate a) / 100)) held))"
    by (induction held) (auto simp: add.assoc)
  from this [of 0, OF assms] show ?thesis by (simp add: totalReturn_def)
qed

section \<open>Facts about the history update\<close>

text \<open>For a day of ten characters the test of the code is the comparison of days.\<close>

lemma prefix_day: "length D = 10 \<Longrightarrow> prefix D d \<longleftrightarrow> day_of d = D"
proof
  assume len: "length D = 10" and "prefix D d"
  then obtain zs where "d = D @ zs" by (auto simp: prefix_def)
  with len show "day_of d = D" by (simp add: day_of_def)
next
  assume len: "length D = 10" and "day_of d = D"
  then have "take 10 d = D" by (simp add: day_of_def)
  then show "prefix D d" using take_is_prefix [of 10 d] by simp
qed

lemma day_of_day: "length d = 10 \<Longrightarrow> day_of d = d"
  by (simp add: day_of_def)

lemma history_has_newPoint:
  "newPoint D nw rr es \<in> set (updateHistory D nw rr es H)"
proof (cases "findIndex (\<lambda>h. prefix D (date h)) H \<ge> 0")
  case True
  from findIndex_first [OF True]
  have "nat (findIndex (\<lambda>h. prefix D (date h)) H) < length H" by simp
  with True show ?thesis by (simp add: updateHistory_def Let_def set_update_memI)
next
  case False
  then show ?thesis by (simp add: updateHistory_def Let_def)
qed

section \<open>Facts about the extraction client\<close>

lemma UNKNOWN_ASSET_nonempty: "UNKNOWN_ASSET \<noteq> []"
  by (simp add: UNKNOWN_ASSET_def)

lemma or_str_nonempty: "d \<noteq> [] \<Longrightarrow> or_str v d \<noteq> []"
  by (cases v) auto

lemma OTHER_in_values: "OTHER \<in> set AssetCategory_values"
  by (simp add: AssetCategory_values_def)

lemma sanitizeItem_truthy: "truthy_str (name (sanitizeItem t item))"
  by (simp add: sanitizeItem_def or_str_nonempty UNKNOWN_ASSET_nonempty)

lemma rawData_map_set:
  "rawData_map st i items = Inr rs \<Longrightarrow> r \<in> set rs \<Longrightarrow> \<exists>t item. r = sanitizeItem t item"
proof (induction items arbitrary: i rs)
  case Nil
  then show ?case by simp
next
  case (Cons a items)
  show ?case
  proof (cases a)
    case None
    with Cons.prems show ?thesis by simp
  next
    case (Some item)
    with Cons.prems(1) obtain rest where rest: "rawData_map st (Suc i) items = Inr rest"
      and rs: "rs = sanitizeItem (st i) item # rest"
      by (auto split: sum.splits)
    from Cons.prems(2) rs have "r = sanitizeItem (st i) item \<or> r \<in> set rest" by simp
    then show ?thesis
    proof
      assume "r = sanitizeItem (st i) item"
      then show ?thesis by blast
    next
      assume "r \<in> set rest"
      from Cons.IH [OF rest this] show ?thesis .
    qed
  qed
qed

lemma rawData_map_null:
  "None \<in> set items \<Longrightarrow> \<exists>e. rawData_map st i items = Inl e"
proof (induction items arbitrary: i)
  case Nil
  then show ?case by simp
next
  case (Cons a items)
  show ?case
  proof (cases a)
    case None
    then show ?thesis by simp
  next
    case (Some item)
    with Cons.prems have "None \<in> set items" by simp
    from Cons.IH [OF this, of "Suc i"] Some show ?thesis by auto
  qed
qed

text \<open>Every record the client returns was built by the sanitizer.\<close>

lemma parse_result_sanitized:
  "parseHoldingsScreenshot g p st b = Inr rs \<Longrightarrow> r \<in> set rs \<Longrightarrow> \<exists>t item. r = sanitizeItem t item"
  by (auto simp: parseHoldingsScreenshot_def split: sum.splits if_splits parsed.splits option.splits
      dest: rawData_map_set)

text \<open>So no record of the client carries an id.\<close>

lemma parse_result_no_id:
  "parseHoldingsScreenshot g p st b = Inr rs \<Longrightarrow> r \<in> set rs \<Longrightarrow> asset_id r = None"
  by (auto dest!: parse_result_sanitized simp: sanitizeItem_def)

text \<open>The client throws exactly when the remote call does.\<close>

lemma parse_throws_iff:
  "(\<exists>e. parseHoldingsScreenshot g p st b = Inl e) \<longleftrightarrow> (\<exists>e. g b = Inl e)"
  by (auto simp: parseHoldingsScreenshot_def split: sum.splits parsed.splits if_splits option.splits)

section \<open>Facts about a pass: the record at its place in the batch, positions, names, ids\<close>

text \<open>The update branch on one record, field by field.\<close>

lemma mergeExtracted_update_fields:
  assumes "name e = Some n" and "n \<noteq> []" and "asset_id e = None"
    and "\<exists>a \<in> set held. name a = Some n"
  shows "\<exists>i < length held.
           name (held ! i) = Some n \<and> (\<forall>j < i. name (held ! j) \<noteq> Some n) \<and>
           mergeExtracted now uuid e held =
             held[i := \<lparr> asset_id = asset_id (held ! i),
                         name = Some n,
                         category = (case category e of Some c \<Rightarrow> Some c | None \<Rightarrow> category (held ! i)),
                         amount = (case amount e of Some x \<Rightarrow> Some x | None \<Rightarrow> amount (held ! i)),
                         returnRate = (case returnRate e of Some r \<Rightarrow> Some r | None \<Rightarrow> returnRate (held ! i)),
                         currency = (case currency e of Some c \<Rightarrow> Some c | None \<Rightarrow> currency (held ! i)),
                         lastUpdated = Some now \<rparr>]"
proof (cases rule: mergeExtracted_cases [where e = e and held = held and now = now and uuid = uuid])
  case skip
  with assms(1,2) show ?thesis by simp
next
  case (update i)
  have "(spread (held ! i) e)\<lparr>lastUpdated := Some now\<rparr> =
      \<lparr> asset_id = asset_id (held ! i),
        name = Some n,
        category = (case category e of Some c \<Rightarrow> Some c | None \<Rightarrow> category (held ! i)),
        amount = (case amount e of Some x \<Rightarrow> Some x | None \<Rightarrow> amount (held ! i)),
        returnRate = (case returnRate e of Some r \<Rightarrow> Some r | None \<Rightarrow> returnRate (held ! i)),
        currency = (case currency e of Some c \<Rightarrow> Some c | None \<Rightarrow> currency (held ! i)),
        lastUpdated = Some now \<rparr>"
    using assms(1,3) by (simp add: spread_def over_def)
  with update(2,3,4,6) assms(1) show ?thesis by auto
next
  case insert
  with assms(1,4) show ?thesis by auto
qed

text \<open>
  The pass on a batch is the pass on the records before a record, then the callback
  on that record, at its index, then the rest.
\<close>

lemma mergeAssets_snoc:
  "mergeAssets ck uu prev (before @ [e]) =
     mergeExtracted (ck (length before)) (uu (length before)) e (mergeAssets ck uu prev before)"
  by (simp add: mergeAssets_def forEach_merge_append)

lemma mergeAssets_split:
  "mergeAssets ck uu prev (before @ e # after) =
     forEach_merge ck uu (Suc (length before)) after
       (mergeExtracted (ck (length before)) (uu (length before)) e (mergeAssets ck uu prev before))"
  by (simp add: mergeAssets_def forEach_merge_append)

text \<open>No branch of the callback moves an asset or changes its name.\<close>

lemma step_names_prefix:
  assumes "j < length held"
  shows "j < length (mergeExtracted now uuid e held) \<and> name (mergeExtracted now uuid e held ! j) = name (held ! j)"
proof (cases rule: mergeExtracted_cases [where e = e and held = held and now = now and uuid = uuid])
  case skip
  with assms show ?thesis by simp
next
  case (update i)
  from update(1) obtain n where n: "name e = Some n" by (cases "name e") auto
  have "name ((spread (held ! i) e)\<lparr>lastUpdated := Some now\<rparr>) = name (held ! i)"
    using update(3) n by (simp add: name_spread)
  with update(2,6) assms show ?thesis by (cases "j = i") simp_all
next
  case insert
  with assms show ?thesis by (simp add: nth_append)
qed

lemma forEach_merge_names_prefix:
  assumes "j < length xs"
  shows "j < length (forEach_merge ck uu k es xs) \<and> name (forEach_merge ck uu k es xs ! j) = name (xs ! j)"
  using assms
proof (induction es arbitrary: xs k)
  case Nil
  then show ?case by simp
next
  case (Cons e es)
  let ?xs' = "mergeExtracted (ck k) (uu k) e xs"
  from step_names_prefix [OF Cons.prems, of "ck k" "uu k" e]
  have lt: "j < length ?xs'" and same: "name (?xs' ! j) = name (xs ! j)" by simp_all
  from Cons.IH [OF lt, of "Suc k"] same show ?case by simp
qed

text \<open>The names after a pass are names of the old list or of the batch.\<close>

lemma forEach_merge_names_subset:
  "set (map name (forEach_merge ck uu k es xs)) \<subseteq> set (map name xs) \<union> name ` set es"
proof (induction es arbitrary: xs k)
  case Nil
  then show ?case by simp
next
  case (Cons e es)
  let ?xs' = "mergeExtracted (ck k) (uu k) e xs"
  have "set (map name ?xs') \<subseteq> set (map name xs) \<union> {name e}"
    using mergeExtracted_names [of "ck k" "uu k" e xs] by (auto split: if_splits)
  with Cons.IH [of "Suc k" ?xs'] show ?case by auto
qed

lemma mergeAssets_no_name:
  assumes "n \<notin> name ` set prev" and "n \<notin> name ` set es"
  shows "\<forall>a \<in> set (mergeAssets ck uu prev es). name a \<noteq> n"
  using forEach_merge_names_subset [of ck uu 0 es prev] assms
  unfolding mergeAssets_def by auto

text \<open>
  The ids. A record without an id leaves the ids of the list as they are, or adds the
  value of the generator at the end.
\<close>

lemma asset_id_spread: "asset_id e = None \<Longrightarrow> asset_id (spread a e) = asset_id a"
  by (simp add: spread_def over_def)

lemma step_ids:
  assumes "asset_id e = None"
  shows "map asset_id (mergeExtracted now uuid e held) = map asset_id held \<or>
         map asset_id (mergeExtracted now uuid e held) = map asset_id held @ [Some uuid]"
proof (cases rule: mergeExtracted_cases [where e = e and held = held and now = now and uuid = uuid])
  case skip
  then show ?thesis by simp
next
  case (update i)
  have "asset_id ((spread (held ! i) e)\<lparr>lastUpdated := Some now\<rparr>) = asset_id (held ! i)"
    using assms by (simp add: asset_id_spread)
  then have "map asset_id (held[i := (spread (held ! i) e)\<lparr>lastUpdated := Some now\<rparr>]) =
      (map asset_id held)[i := map asset_id held ! i]"
    using update(2) by (simp only: map_update nth_map)
  then have "map asset_id (held[i := (spread (held ! i) e)\<lparr>lastUpdated := Some now\<rparr>]) =
      map asset_id held"
    by (simp only: list_update_id)
  with update(6) show ?thesis by simp
next
  case insert
  then show ?thesis by simp
qed

text \<open>
  \<open>g m\<close> is the value of \<^verbatim>\<open>crypto.randomUUID()\<close> at the \<open>m\<close>-th record that the application
  handles. When no two of its values are equal, ids that are pairwise distinct and
  were issued for earlier records stay so along a pass, and the value read at a record
  is the id of no asset of the list that the loop has reached.
\<close>

lemma forEach_merge_ids:
  assumes "inj g" and "\<forall>e \<in> set es. asset_id e = None"
    and "distinct (map asset_id xs)"
    and "\<forall>a \<in> set xs. \<exists>m < k + j. asset_id a = Some (g m)"
  shows "distinct (map asset_id (forEach_merge ck (\<lambda>i. g (k + i)) j es xs)) \<and>
         (\<forall>a \<in> set (forEach_merge ck (\<lambda>i. g (k + i)) j es xs).
            \<exists>m < k + j + length es. asset_id a = Some (g m))"
  using assms(2-)
proof (induction es arbitrary: xs j)
  case Nil
  then show ?case by simp
next
  case (Cons e es)
  let ?xs' = "mergeExtracted (ck j) (g (k + j)) e xs"
  from Cons.prems(1) have none: "asset_id e = None" by simp
  have fresh: "Some (g (k + j)) \<notin> set (map asset_id xs)"
  proof
    assume "Some (g (k + j)) \<in> set (map asset_id xs)"
    then obtain a where a: "a \<in> set xs" "asset_id a = Some (g (k + j))" by auto
    with Cons.prems(3) obtain m where m: "m < k + j" "asset_id a = Some (g m)" by blast
    with a have "g m = g (k + j)" by simp
    with assms(1) have "m = k + j" by (simp add: inj_eq)
    with m(1) show False by simp
  qed
  have ids: "set (map asset_id xs) \<subseteq> {Some (g m) | m. m < k + j}"
    using Cons.prems(3) by auto
  from step_ids [OF none, of "ck j" "g (k + j)" xs]
  have d': "distinct (map asset_id ?xs')"
    and s': "set (map asset_id ?xs') \<subseteq> {Some (g m) | m. m < k + Suc j}"
  proof -
    from step_ids [OF none, of "ck j" "g (k + j)" xs]
    show "distinct (map asset_id ?xs')"
    proof
      assume "map asset_id ?xs' = map asset_id xs"
      with Cons.prems(2) show ?thesis by simp
    next
      assume "map asset_id ?xs' = map asset_id xs @ [Some (g (k + j))]"
      with Cons.prems(2) fresh show ?thesis by simp
    qed
    from step_ids [OF none, of "ck j" "g (k + j)" xs]
    show "set (map asset_id ?xs') \<subseteq> {Some (g m) | m. m < k + Suc j}"
    proof
      assume "map asset_id ?xs' = map asset_id xs"
      with ids show ?thesis by (auto intro: less_SucI)
    next
      assume "map asset_id ?xs' = map asset_id xs @ [Some (g (k + j))]"
      with ids show ?thesis by (auto intro: less_SucI)
    qed
  qed
  from s' have p': "\<forall>a \<in> set ?xs'. \<exists>m < k + Suc j. asset_id a = Some (g m)" by auto
  from Cons.prems(1) have rest: "\<forall>e \<in> set es. asset_id e = None" by simp
  from Cons.IH [OF rest d' p'] show ?case by simp
qed

lemma forEach_merge_fresh:
  assumes "inj g" and "\<forall>e \<in> set es. asset_id e = None"
    and "distinct (map asset_id xs)"
    and "\<forall>a \<in> set xs. \<exists>m < k. asset_id a = Some (g m)"
  shows "Some (g (k + length es)) \<notin> asset_id ` set (forEach_merge ck (\<lambda>i. g (k + i)) 0 es xs)"
proof
  assume "Some (g (k + length es)) \<in> asset_id ` set (forEach_merge ck (\<lambda>i. g (k + i)) 0 es xs)"
  then obtain a where a: "a \<in> set (forEach_merge ck (\<lambda>i. g (k + i)) 0 es xs)"
    "asset_id a = Some (g (k + length es))" by auto
  from assms(4) have "\<forall>a \<in> set xs. \<exists>m < k + 0. asset_id a = Some (g m)" by simp
  from forEach_merge_ids [OF assms(1,2,3) this, of ck] a(1)
  obtain m where m: "m < k + length es" "asset_id a = Some (g m)" by auto
  with a(2) have "g m = g (k + length es)" by simp
  with assms(1) have "m = k + length es" by (simp add: inj_eq)
  with m(1) show False by simp
qed

text \<open>The asset that the insert branch builds from a record of the client, field by field.\<close>

lemma sanitizeItem_fields:
  "(sanitizeItem t item)\<lparr>asset_id := Some uuid, lastUpdated := Some now\<rparr> =
      \<lparr> asset_id = Some uuid,
        name = Some (case item_name item of
                       Some n \<Rightarrow> if n = [] then UNKNOWN_ASSET else n
                     | None \<Rightarrow> UNKNOWN_ASSET),
        category = Some (case item_category item of
                       Some c \<Rightarrow> if c \<in> {''Stock'', ''Fund'', ''Bond'', ''Crypto'', ''Cash'', ''Other''}
                                 then c else ''Other''
                     | None \<Rightarrow> ''Other''),
        amount = Some (case item_amount item of Some x \<Rightarrow> x | None \<Rightarrow> 0),
        returnRate = Some (case item_returnRate item of Some x \<Rightarrow> x | None \<Rightarrow> 0),
        currency = Some (case item_currency item of
                       Some c \<Rightarrow> if c = [] then ''CNY'' else c
                     | None \<Rightarrow> ''CNY''),
        lastUpdated = Some now \<rparr>"
  by (simp add: sanitizeItem_def AssetCategory_values_def STOCK_def FUND_def BOND_def
      CRYPTO_def CASH_def OTHER_def split: option.splits)

lemma sanitizeItem_no_id: "asset_id (sanitizeItem t item) = None"
  by (simp add: sanitizeItem_def)


section \<open>Reconciliation: update by name, insert, skip\<close>

text \<open>
  C1. The update branch, over a pass of the updater. The record \<open>e\<close> has a non-empty
  name \<open>n\<close> (it is not skipped) and, as every record of the extraction client, no id of
  its own (\<open>parse_result_no_id\<close>; the spread would copy one). \<open>before\<close> are the records
  of the batch that the loop handles before \<open>e\<close>, \<open>after\<close> those that follow, and
  \<open>ck i\<close> is the time read at the record of index \<open>i\<close>.

  First, when an asset of the list that the loop has reached (the old list merged with
  \<open>before\<close>) has the name \<open>n\<close>, compared with \<^verbatim>\<open>===\<close>, so exactly and with case,
  handling \<open>e\<close> overwrites the first asset of that name in place and changes nothing
  else: the asset keeps its id, takes every field that \<open>e\<close> provides, keeps its own
  value for every field that \<open>e\<close> lacks, and gets the time read at \<open>e\<close> as
  \<open>lastUpdated\<close>. With \<open>before\<close> empty this is the pass on the batch of the one record
  \<open>e\<close>, from the old list.

  Second, for the old list itself: when an asset of the old list has the name \<open>n\<close> and
  no other record of the batch has it, the list that the whole pass returns holds, at
  the position of the first such asset, the asset built in that way from the old one
  and \<open>e\<close>.

  Third, an asset of the old list whose name no record of the batch has is returned at
  its position and as it was.

  A record of the extraction client has all its other fields (the sanitizer filled in
  the defaults), so it overwrites all of them; absent fields occur for partial records
  in general.
\<close>

theorem C1_update_keeps_id_and_absent_fields:
  assumes "name e = Some n" and "n \<noteq> []" and "asset_id e = None"
  shows
    "((\<exists>a \<in> set (mergeAssets ck uu prev before). name a = Some n) \<longrightarrow>
        (\<exists>i < length (mergeAssets ck uu prev before).
           name (mergeAssets ck uu prev before ! i) = Some n \<and>
           (\<forall>j < i. name (mergeAssets ck uu prev before ! j) \<noteq> Some n) \<and>
           mergeAssets ck uu prev (before @ [e]) =
             (mergeAssets ck uu prev before)
               [i := \<lparr> asset_id = asset_id (mergeAssets ck uu prev before ! i),
                       name = Some n,
                       category = (case category e of Some c \<Rightarrow> Some c
                                   | None \<Rightarrow> category (mergeAssets ck uu prev before ! i)),
                       amount = (case amount e of Some x \<Rightarrow> Some x
                                 | None \<Rightarrow> amount (mergeAssets ck uu prev before ! i)),
                       returnRate = (case returnRate e of Some r \<Rightarrow> Some r
                                     | None \<Rightarrow> returnRate (mergeAssets ck uu prev before ! i)),
                       currency = (case currency e of Some c \<Rightarrow> Some c
                                   | None \<Rightarrow> currency (mergeAssets ck uu prev before ! i)),
                       lastUpdated = Some (ck (length before)) \<rparr>])) \<and>
     ((\<exists>a \<in> set prev. name a = Some n) \<and> Some n \<notin> name ` set before \<and> Some n \<notin> name ` set after \<longrightarrow>
        (\<exists>i < length prev.
           name (prev ! i) = Some n \<and> (\<forall>j < i. name (prev ! j) \<noteq> Some n) \<and>
           i < length (mergeAssets ck uu prev (before @ e # after)) \<and>
           mergeAssets ck uu prev (before @ e # after) ! i =
             \<lparr> asset_id = asset_id (prev ! i),
               name = Some n,
               category = (case category e of Some c \<Rightarrow> Some c | None \<Rightarrow> category (prev ! i)),
               amount = (case amount e of Some x \<Rightarrow> Some x | None \<Rightarrow> amount (prev ! i)),
               returnRate = (case returnRate e of Some r \<Rightarrow> Some r | None \<Rightarrow> returnRate (prev ! i)),
               currency = (case currency e of Some c \<Rightarrow> Some c | None \<Rightarrow> currency (prev ! i)),
               lastUpdated = Some (ck (length before)) \<rparr>)) \<and>
     (\<forall>j < length prev. name (prev ! j) \<notin> name ` set (before @ e # after) \<longrightarrow>
        j < length (mergeAssets ck uu prev (before @ e # after)) \<and>
        mergeAssets ck uu prev (before @ e # after) ! j = prev ! j)"
proof -
  let ?cur = "mergeAssets ck uu prev before"
  let ?now = "ck (length before)"
  let ?mid = "mergeExtracted ?now (uu (length before)) e ?cur"
  let ?res = "mergeAssets ck uu prev (before @ e # after)"
  have A: "(\<exists>a \<in> set ?cur. name a = Some n) \<longrightarrow>
        (\<exists>i < length ?cur.
           name (?cur ! i) = Some n \<and> (\<forall>j < i. name (?cur ! j) \<noteq> Some n) \<and>
           mergeAssets ck uu prev (before @ [e]) =
             ?cur[i := \<lparr> asset_id = asset_id (?cur ! i),
                       name = Some n,
                       category = (case category e of Some c \<Rightarrow> Some c | None \<Rightarrow> category (?cur ! i)),
                       amount = (case amount e of Some x \<Rightarrow> Some x | None \<Rightarrow> amount (?cur ! i)),
                       returnRate = (case returnRate e of Some r \<Rightarrow> Some r | None \<Rightarrow> returnRate (?cur ! i)),
                       currency = (case currency e of Some c \<Rightarrow> Some c | None \<Rightarrow> currency (?cur ! i)),
                       lastUpdated = Some ?now \<rparr>])"
    unfolding mergeAssets_snoc
    using mergeExtracted_update_fields [OF assms, of ?cur ?now "uu (length before)"] by blast
  have B: "(\<exists>a \<in> set prev. name a = Some n) \<and> Some n \<notin> name ` set before \<and> Some n \<notin> name ` set after \<longrightarrow>
        (\<exists>i < length prev.
           name (prev ! i) = Some n \<and> (\<forall>j < i. name (prev ! j) \<noteq> Some n) \<and>
           i < length ?res \<and>
           ?res ! i =
             \<lparr> asset_id = asset_id (prev ! i),
               name = Some n,
               category = (case category e of Some c \<Rightarrow> Some c | None \<Rightarrow> category (prev ! i)),
               amount = (case amount e of Some x \<Rightarrow> Some x | None \<Rightarrow> amount (prev ! i)),
               returnRate = (case returnRate e of Some r \<Rightarrow> Some r | None \<Rightarrow> returnRate (prev ! i)),
               currency = (case currency e of Some c \<Rightarrow> Some c | None \<Rightarrow> currency (prev ! i)),
               lastUpdated = Some ?now \<rparr>)"
  proof
    assume h: "(\<exists>a \<in> set prev. name a = Some n) \<and> Some n \<notin> name ` set before \<and> Some n \<notin> name ` set after"
    let ?k = "findIndex (\<lambda>a. name a = Some n) prev"
    from h have ge: "?k \<ge> 0" by (simp add: findIndex_nonneg_iff)
    define i where "i = nat ?k"
    from findIndex_first [OF ge]
    have i_lt: "i < length prev" and i_hit: "name (prev ! i) = Some n"
      and i_first: "\<forall>j < i. name (prev ! j) \<noteq> Some n"
      unfolding i_def by auto
    from h i_hit have "name (prev ! i) \<notin> name ` set before" by simp
    from forEach_merge_keeps_other [OF i_lt this, of ck uu 0]
    have cur_lt: "i < length ?cur" and cur_i: "?cur ! i = prev ! i"
      by (simp_all add: mergeAssets_def)
    have cur_first: "\<forall>j < i. name (?cur ! j) \<noteq> Some n"
    proof (intro allI impI)
      fix j assume "j < i"
      with i_lt have "j < length prev" by simp
      from forEach_merge_names_prefix [OF this, of ck uu 0 before]
      have "name (?cur ! j) = name (prev ! j)" by (simp add: mergeAssets_def)
      with i_first \<open>j < i\<close> show "name (?cur ! j) \<noteq> Some n" by simp
    qed
    have "\<exists>a \<in> set ?cur. name a = Some n"
      using cur_lt cur_i i_hit by (metis nth_mem)
    from mergeExtracted_update_fields [OF assms this, of ?now "uu (length before)"]
    obtain i' where i': "i' < length ?cur" "name (?cur ! i') = Some n"
      "\<forall>j < i'. name (?cur ! j) \<noteq> Some n"
      and mid: "?mid = ?cur[i' := \<lparr> asset_id = asset_id (?cur ! i'),
                       name = Some n,
                       category = (case category e of Some c \<Rightarrow> Some c | None \<Rightarrow> category (?cur ! i')),
                       amount = (case amount e of Some x \<Rightarrow> Some x | None \<Rightarrow> amount (?cur ! i')),
                       returnRate = (case returnRate e of Some r \<Rightarrow> Some r | None \<Rightarrow> returnRate (?cur ! i')),
                       currency = (case currency e of Some c \<Rightarrow> Some c | None \<Rightarrow> currency (?cur ! i')),
                       lastUpdated = Some ?now \<rparr>]"
      by blast
    have "i' = i"
    proof (rule ccontr)
      assume "i' \<noteq> i"
      then consider "i' < i" | "i < i'" by linarith
      then show False
      proof cases
        case 1
        with cur_first i'(2) show False by blast
      next
        case 2
        with i'(3) cur_i i_hit show False by auto
      qed
    qed
    from mid cur_lt have mid_i: "?mid ! i =
             \<lparr> asset_id = asset_id (prev ! i),
               name = Some n,
               category = (case category e of Some c \<Rightarrow> Some c | None \<Rightarrow> category (prev ! i)),
               amount = (case amount e of Some x \<Rightarrow> Some x | None \<Rightarrow> amount (prev ! i)),
               returnRate = (case returnRate e of Some r \<Rightarrow> Some r | None \<Rightarrow> returnRate (prev ! i)),
               currency = (case currency e of Some c \<Rightarrow> Some c | None \<Rightarrow> currency (prev ! i)),
               lastUpdated = Some ?now \<rparr>"
      and mid_lt: "i < length ?mid"
      unfolding \<open>i' = i\<close> cur_i by simp_all
    from mid_i have "name (?mid ! i) = Some n" by simp
    with h have "name (?mid ! i) \<notin> name ` set after" by simp
    from forEach_merge_keeps_other [OF mid_lt this, of ck uu "Suc (length before)"]
    have "i < length ?res" and "?res ! i = ?mid ! i"
      by (simp_all add: mergeAssets_split)
    with mid_i i_lt i_hit i_first show "\<exists>i < length prev.
           name (prev ! i) = Some n \<and> (\<forall>j < i. name (prev ! j) \<noteq> Some n) \<and>
           i < length ?res \<and>
           ?res ! i =
             \<lparr> asset_id = asset_id (prev ! i),
               name = Some n,
               category = (case category e of Some c \<Rightarrow> Some c | None \<Rightarrow> category (prev ! i)),
               amount = (case amount e of Some x \<Rightarrow> Some x | None \<Rightarrow> amount (prev ! i)),
               returnRate = (case returnRate e of Some r \<Rightarrow> Some r | None \<Rightarrow> returnRate (prev ! i)),
               currency = (case currency e of Some c \<Rightarrow> Some c | None \<Rightarrow> currency (prev ! i)),
               lastUpdated = Some ?now \<rparr>"
      by metis
  qed
  have C: "\<forall>j < length prev. name (prev ! j) \<notin> name ` set (before @ e # after) \<longrightarrow>
        j < length ?res \<and> ?res ! j = prev ! j"
    unfolding mergeAssets_def using forEach_merge_keeps_other by blast
  from A B C show ?thesis by (intro conjI)
qed

theorem C1_update_keeps_id_and_absent_fields_witness:
  "mergeAssets (\<lambda>i. if i = 0 then ''t1'' else ''t2'') (\<lambda>i. ''u1'')
     [\<lparr> asset_id = Some ''c'', name = Some ''Cash'', category = Some ''Cash'',
        amount = Some 300, returnRate = Some 0, currency = Some ''CNY'',
        lastUpdated = Some ''t0'' \<rparr>,
      \<lparr> asset_id = Some ''a'', name = Some ''Fund A'', category = Some ''Fund'',
        amount = Some 10000, returnRate = Some 5, currency = Some ''CNY'',
        lastUpdated = Some ''t0'' \<rparr>]
     [\<lparr> asset_id = None, name = Some ''Stock X'', category = Some ''Stock'', amount = Some 5000,
        returnRate = Some (- 2), currency = Some ''CNY'', lastUpdated = None \<rparr>,
      \<lparr> asset_id = None, name = Some ''Fund A'', category = None, amount = Some 12000,
        returnRate = None, currency = None, lastUpdated = None \<rparr>] ! 1
   = \<lparr> asset_id = Some ''a'', name = Some ''Fund A'', category = Some ''Fund'',
        amount = Some 12000, returnRate = Some 5, currency = Some ''CNY'',
        lastUpdated = Some ''t2'' \<rparr> \<and>
   mergeAssets (\<lambda>i. if i = 0 then ''t1'' else ''t2'') (\<lambda>i. ''u1'')
     [\<lparr> asset_id = Some ''c'', name = Some ''Cash'', category = Some ''Cash'',
        amount = Some 300, returnRate = Some 0, currency = Some ''CNY'',
        lastUpdated = Some ''t0'' \<rparr>,
      \<lparr> asset_id = Some ''a'', name = Some ''Fund A'', category = Some ''Fund'',
        amount = Some 10000, returnRate = Some 5, currency = Some ''CNY'',
        lastUpdated = Some ''t0'' \<rparr>]
     [\<lparr> asset_id = None, name = Some ''Stock X'', category = Some ''Stock'', amount = Some 5000,
        returnRate = Some (- 2), currency = Some ''CNY'', lastUpdated = None \<rparr>,
      \<lparr> asset_id = None, name = Some ''Fund A'', category = None, amount = Some 12000,
        returnRate = None, currency = None, lastUpdated = None \<rparr>] ! 0
   = \<lparr> asset_id = Some ''c'', name = Some ''Cash'', category = Some ''Cash'',
        amount = Some 300, returnRate = Some 0, currency = Some ''CNY'',
        lastUpdated = Some ''t0'' \<rparr>"
proof -
  let ?ck = "\<lambda>i::nat. if i = 0 then ''t1'' else ''t2''"
  let ?uu = "\<lambda>i::nat. ''u1''"
  let ?cash = "\<lparr> asset_id = Some ''c'', name = Some ''Cash'', category = Some ''Cash'',
        amount = Some 300, returnRate = Some 0, currency = Some ''CNY'',
        lastUpdated = Some ''t0'' \<rparr>"
  let ?fund = "\<lparr> asset_id = Some ''a'', name = Some ''Fund A'', category = Some ''Fund'',
        amount = Some 10000, returnRate = Some 5, currency = Some ''CNY'',
        lastUpdated = Some ''t0'' \<rparr>"
  let ?x = "\<lparr> asset_id = None, name = Some ''Stock X'', category = Some ''Stock'', amount = Some 5000,
        returnRate = Some (- 2), currency = Some ''CNY'', lastUpdated = None \<rparr>"
  let ?e = "\<lparr> asset_id = None, name = Some ''Fund A'', category = None, amount = Some 12000,
        returnRate = None, currency = None, lastUpdated = None \<rparr>"
  let ?prev = "[?cash, ?fund]"
  let ?res = "mergeAssets ?ck ?uu ?prev ([?x] @ ?e # [])"
  have h1: "name ?e = Some ''Fund A''" by simp
  have h2: "''Fund A'' \<noteq> []" by simp
  have h3: "asset_id ?e = None" by simp
  have h4: "(\<exists>a \<in> set ?prev. name a = Some ''Fund A'') \<and> Some ''Fund A'' \<notin> name ` set [?x] \<and>
      Some ''Fund A'' \<notin> name ` set []" by simp
  have h5: "0 < length ?prev \<and> name (?prev ! 0) \<notin> name ` set ([?x] @ ?e # [])" by simp
  note T = C1_update_keeps_id_and_absent_fields [OF h1 h2 h3, of ?ck ?uu ?prev "[?x]" "[]"]
  from T h4 obtain i where i: "i < length ?prev" "name (?prev ! i) = Some ''Fund A''"
    and r: "?res ! i =
       \<lparr> asset_id = asset_id (?prev ! i),
               name = Some ''Fund A'',
               category = (case category ?e of Some c \<Rightarrow> Some c | None \<Rightarrow> category (?prev ! i)),
               amount = (case amount ?e of Some x \<Rightarrow> Some x | None \<Rightarrow> amount (?prev ! i)),
               returnRate = (case returnRate ?e of Some r \<Rightarrow> Some r | None \<Rightarrow> returnRate (?prev ! i)),
               currency = (case currency ?e of Some c \<Rightarrow> Some c | None \<Rightarrow> currency (?prev ! i)),
               lastUpdated = Some (?ck (length [?x])) \<rparr>"
    by blast
  from i have "i = 1" by (cases i) simp_all
  with r have upd: "?res ! 1 = \<lparr> asset_id = Some ''a'', name = Some ''Fund A'', category = Some ''Fund'',
        amount = Some 12000, returnRate = Some 5, currency = Some ''CNY'',
        lastUpdated = Some ''t2'' \<rparr>" by simp
  from T h5 have "?res ! 0 = ?prev ! 0" by blast
  with upd show ?thesis by simp
qed

text \<open>
  C2. The insert branch, over a pass of the updater. The record is one of the
  extraction client, \<open>sanitizeItem t item\<close>; its name is the name of no asset of the old
  list and of no record that the loop handles before it, so of no asset of the list
  that the loop has reached. \<open>g m\<close> is the value of \<^verbatim>\<open>crypto.randomUUID()\<close> at the
  \<open>m\<close>-th record that the application handles and \<open>k\<close> the number of records of the
  earlier passes, so that this pass reads \<open>g (k + i)\<close> at its record of index \<open>i\<close>.

  Handling the record appends one asset at the end of the list in progress. The new
  asset has the generator's value for this record as id and the time read at this
  record as \<open>lastUpdated\<close>. Its other fields are those the client built from the
  element of the response (the defaults are applied there, in the sanitizer, and the
  merge copies them): the placeholder name when the name is missing or empty, the
  category \<open>Other\<close> when the category is not one of the six, amount and return rate
  zero when absent, currency \<open>CNY\<close> when absent or empty. When no later record of the
  batch has the name, the list that the pass returns holds this asset at that position.

  The assets of the old list keep their positions and their names in the returned
  list, hence their order, and one whose name no record of the batch has is returned
  as it was.

  The id is new and the ids stay unique. What is asked of the generator is that no two
  of its values are equal. When the ids of the old list are pairwise distinct and were
  issued by the generator for earlier records, and the other records of the batch
  carry no id, then the id of the new asset is the id of no asset of the list in
  progress, the ids of the returned list are pairwise distinct, and each of them was
  issued by the generator for a record handled so far. So the condition on the old
  list holds again of the returned list, for the next pass; it holds of the empty list
  that the application starts with.
\<close>

theorem C2_insert_with_defaults:
  assumes "name (sanitizeItem t item) \<notin> name ` set prev"
    and "name (sanitizeItem t item) \<notin> name ` set before"
  shows
    "mergeAssets ck (\<lambda>i. g (k + i)) prev (before @ [sanitizeItem t item]) =
       mergeAssets ck (\<lambda>i. g (k + i)) prev before @
         [\<lparr> asset_id = Some (g (k + length before)),
            name = Some (case item_name item of
                           Some n \<Rightarrow> if n = [] then UNKNOWN_ASSET else n
                         | None \<Rightarrow> UNKNOWN_ASSET),
            category = Some (case item_category item of
                           Some c \<Rightarrow> if c \<in> {''Stock'', ''Fund'', ''Bond'', ''Crypto'', ''Cash'', ''Other''}
                                     then c else ''Other''
                         | None \<Rightarrow> ''Other''),
            amount = Some (case item_amount item of Some x \<Rightarrow> x | None \<Rightarrow> 0),
            returnRate = Some (case item_returnRate item of Some x \<Rightarrow> x | None \<Rightarrow> 0),
            currency = Some (case item_currency item of
                           Some c \<Rightarrow> if c = [] then ''CNY'' else c
                         | None \<Rightarrow> ''CNY''),
            lastUpdated = Some (ck (length before)) \<rparr>] \<and>
     (name (sanitizeItem t item) \<notin> name ` set after \<longrightarrow>
        length (mergeAssets ck (\<lambda>i. g (k + i)) prev before) <
          length (mergeAssets ck (\<lambda>i. g (k + i)) prev (before @ sanitizeItem t item # after)) \<and>
        mergeAssets ck (\<lambda>i. g (k + i)) prev (before @ sanitizeItem t item # after) !
          length (mergeAssets ck (\<lambda>i. g (k + i)) prev before) =
          \<lparr> asset_id = Some (g (k + length before)),
            name = Some (case item_name item of
                           Some n \<Rightarrow> if n = [] then UNKNOWN_ASSET else n
                         | None \<Rightarrow> UNKNOWN_ASSET),
            category = Some (case item_category item of
                           Some c \<Rightarrow> if c \<in> {''Stock'', ''Fund'', ''Bond'', ''Crypto'', ''Cash'', ''Other''}
                                     then c else ''Other''
                         | None \<Rightarrow> ''Other''),
            amount = Some (case item_amount item of Some x \<Rightarrow> x | None \<Rightarrow> 0),
            returnRate = Some (case item_returnRate item of Some x \<Rightarrow> x | None \<Rightarrow> 0),
            currency = Some (case item_currency item of
                           Some c \<Rightarrow> if c = [] then ''CNY'' else c
                         | None \<Rightarrow> ''CNY''),
            lastUpdated = Some (ck (length before)) \<rparr>) \<and>
     (\<forall>j < length prev.
        j < length (mergeAssets ck (\<lambda>i. g (k + i)) prev (before @ sanitizeItem t item # after)) \<and>
        name (mergeAssets ck (\<lambda>i. g (k + i)) prev (before @ sanitizeItem t item # after) ! j) =
          name (prev ! j) \<and>
        (name (prev ! j) \<notin> name ` set (before @ sanitizeItem t item # after) \<longrightarrow>
           mergeAssets ck (\<lambda>i. g (k + i)) prev (before @ sanitizeItem t item # after) ! j = prev ! j)) \<and>
     (inj g \<and> distinct (map asset_id prev) \<and>
      (\<forall>a \<in> set prev. \<exists>m < k. asset_id a = Some (g m)) \<and>
      (\<forall>e \<in> set before \<union> set after. asset_id e = None) \<longrightarrow>
        Some (g (k + length before)) \<notin> asset_id ` set (mergeAssets ck (\<lambda>i. g (k + i)) prev before) \<and>
        distinct (map asset_id
          (mergeAssets ck (\<lambda>i. g (k + i)) prev (before @ sanitizeItem t item # after))) \<and>
        (\<forall>a \<in> set (mergeAssets ck (\<lambda>i. g (k + i)) prev (before @ sanitizeItem t item # after)).
           \<exists>m < k + length (before @ sanitizeItem t item # after). asset_id a = Some (g m)))"
proof -
  let ?uu = "\<lambda>i. g (k + i)"
  let ?r = "sanitizeItem t item"
  let ?cur = "mergeAssets ck ?uu prev before"
  let ?res = "mergeAssets ck ?uu prev (before @ ?r # after)"
  let ?new = "?r\<lparr>asset_id := Some (g (k + length before)), lastUpdated := Some (ck (length before))\<rparr>"
  let ?mid = "mergeExtracted (ck (length before)) (?uu (length before)) ?r ?cur"
  have none: "\<forall>a \<in> set ?cur. name a \<noteq> name ?r"
    by (rule mergeAssets_no_name [OF assms])
  have mid: "?mid = ?cur @ [?new]"
    by (rule mergeExtracted_insert [OF sanitizeItem_truthy none])
  have ins: "mergeAssets ck ?uu prev (before @ [?r]) = ?cur @ [?new]"
    unfolding mergeAssets_snoc by (rule mid)
  have later: "name ?r \<notin> name ` set after \<longrightarrow> length ?cur < length ?res \<and> ?res ! length ?cur = ?new"
  proof
    assume a: "name ?r \<notin> name ` set after"
    have lt: "length ?cur < length ?mid" unfolding mid by simp
    have at: "?mid ! length ?cur = ?new" unfolding mid by simp
    then have "name (?mid ! length ?cur) = name ?r" by simp
    with a have "name (?mid ! length ?cur) \<notin> name ` set after" by simp
    from forEach_merge_keeps_other [OF lt this, of ck ?uu "Suc (length before)"] at
    show "length ?cur < length ?res \<and> ?res ! length ?cur = ?new"
      by (simp add: mergeAssets_split)
  qed
  have order: "\<forall>j < length prev.
        j < length ?res \<and> name (?res ! j) = name (prev ! j) \<and>
        (name (prev ! j) \<notin> name ` set (before @ ?r # after) \<longrightarrow> ?res ! j = prev ! j)"
  proof (intro allI impI)
    fix j assume j: "j < length prev"
    from forEach_merge_names_prefix [OF j, of ck ?uu 0 "before @ ?r # after"]
    have 1: "j < length ?res \<and> name (?res ! j) = name (prev ! j)"
      by (simp add: mergeAssets_def)
    have 2: "name (prev ! j) \<notin> name ` set (before @ ?r # after) \<longrightarrow> ?res ! j = prev ! j"
      using forEach_merge_keeps_other [OF j, of "before @ ?r # after" ck ?uu 0]
      by (simp add: mergeAssets_def)
    from 1 2 show "j < length ?res \<and> name (?res ! j) = name (prev ! j) \<and>
        (name (prev ! j) \<notin> name ` set (before @ ?r # after) \<longrightarrow> ?res ! j = prev ! j)"
      by blast
  qed
  have uniq: "inj g \<and> distinct (map asset_id prev) \<and>
      (\<forall>a \<in> set prev. \<exists>m < k. asset_id a = Some (g m)) \<and>
      (\<forall>e \<in> set before \<union> set after. asset_id e = None) \<longrightarrow>
        Some (g (k + length before)) \<notin> asset_id ` set ?cur \<and>
        distinct (map asset_id ?res) \<and>
        (\<forall>a \<in> set ?res. \<exists>m < k + length (before @ ?r # after). asset_id a = Some (g m))"
  proof
    assume h: "inj g \<and> distinct (map asset_id prev) \<and>
      (\<forall>a \<in> set prev. \<exists>m < k. asset_id a = Some (g m)) \<and>
      (\<forall>e \<in> set before \<union> set after. asset_id e = None)"
    then have g: "inj g" and d: "distinct (map asset_id prev)"
      and p: "\<forall>a \<in> set prev. \<exists>m < k. asset_id a = Some (g m)"
      and b: "\<forall>e \<in> set before. asset_id e = None"
      and all: "\<forall>e \<in> set (before @ ?r # after). asset_id e = None"
      by (auto simp: sanitizeItem_no_id)
    have fresh: "Some (g (k + length before)) \<notin> asset_id ` set ?cur"
      unfolding mergeAssets_def by (rule forEach_merge_fresh [OF g b d p])
    from p have p0: "\<forall>a \<in> set prev. \<exists>m < k + 0. asset_id a = Some (g m)" by simp
    from forEach_merge_ids [OF g all d p0, of ck]
    have "distinct (map asset_id ?res) \<and>
        (\<forall>a \<in> set ?res. \<exists>m < k + length (before @ ?r # after). asset_id a = Some (g m))"
      by (simp add: mergeAssets_def)
    with fresh show "Some (g (k + length before)) \<notin> asset_id ` set ?cur \<and>
        distinct (map asset_id ?res) \<and>
        (\<forall>a \<in> set ?res. \<exists>m < k + length (before @ ?r # after). asset_id a = Some (g m))"
      by blast
  qed
  from ins later order uniq show ?thesis
    unfolding sanitizeItem_fields by (intro conjI)
qed

theorem C2_insert_with_defaults_witness:
  "mergeAssets (\<lambda>i. if i = 0 then ''t1'' else ''t2'') (\<lambda>i. replicate (Suc (1 + i)) CHR ''u'')
     [\<lparr> asset_id = Some ''u'', name = Some ''Fund A'', category = Some ''Fund'',
        amount = Some 10000, returnRate = Some 5, currency = Some ''CNY'',
        lastUpdated = Some ''t0'' \<rparr>]
     [sanitizeItem ''s'' \<lparr> item_name = Some ''Fund A'', item_category = Some ''Fund'',
        item_amount = Some 12000, item_returnRate = Some 6, item_currency = Some ''CNY'' \<rparr>,
      sanitizeItem ''s'' \<lparr> item_name = Some ''Stock X'', item_category = Some ''Equity'',
        item_amount = None, item_returnRate = Some (- 2), item_currency = None \<rparr>]
   = [\<lparr> asset_id = Some ''u'', name = Some ''Fund A'', category = Some ''Fund'',
        amount = Some 12000, returnRate = Some 6, currency = Some ''CNY'',
        lastUpdated = Some ''t1'' \<rparr>,
      \<lparr> asset_id = Some ''uuu'', name = Some ''Stock X'', category = Some ''Other'',
        amount = Some 0, returnRate = Some (- 2), currency = Some ''CNY'',
        lastUpdated = Some ''t2'' \<rparr>] \<and>
   distinct (map asset_id
     (mergeAssets (\<lambda>i. if i = 0 then ''t1'' else ''t2'') (\<lambda>i. replicate (Suc (1 + i)) CHR ''u'')
     [\<lparr> asset_id = Some ''u'', name = Some ''Fund A'', category = Some ''Fund'',
        amount = Some 10000, returnRate = Some 5, currency = Some ''CNY'',
        lastUpdated = Some ''t0'' \<rparr>]
     [sanitizeItem ''s'' \<lparr> item_name = Some ''Fund A'', item_category = Some ''Fund'',
        item_amount = Some 12000, item_returnRate = Some 6, item_currency = Some ''CNY'' \<rparr>,
      sanitizeItem ''s'' \<lparr> item_name = Some ''Stock X'', item_category = Some ''Equity'',
        item_amount = None, item_returnRate = Some (- 2), item_currency = None \<rparr>]))"
proof -
  let ?ck = "\<lambda>i::nat. if i = 0 then ''t1'' else ''t2''"
  let ?g = "\<lambda>m. replicate (Suc m) CHR ''u''"
  let ?fund = "\<lparr> asset_id = Some ''u'', name = Some ''Fund A'', category = Some ''Fund'',
        amount = Some 10000, returnRate = Some 5, currency = Some ''CNY'',
        lastUpdated = Some ''t0'' \<rparr>"
  let ?i0 = "\<lparr> item_name = Some ''Fund A'', item_category = Some ''Fund'',
        item_amount = Some 12000, item_returnRate = Some 6, item_currency = Some ''CNY'' \<rparr>"
  let ?i1 = "\<lparr> item_name = Some ''Stock X'', item_category = Some ''Equity'',
        item_amount = None, item_returnRate = Some (- 2), item_currency = None \<rparr>"
  let ?before = "[sanitizeItem ''s'' ?i0]"
  have h1: "name (sanitizeItem ''s'' ?i1) \<notin> name ` set [?fund]"
    by (simp add: sanitizeItem_def)
  have h2: "name (sanitizeItem ''s'' ?i1) \<notin> name ` set ?before"
    by (simp add: sanitizeItem_def)
  have h4: "inj ?g \<and> distinct (map asset_id [?fund]) \<and>
      (\<forall>a \<in> set [?fund]. \<exists>m < 1. asset_id a = Some (?g m)) \<and>
      (\<forall>e \<in> set ?before \<union> set []. asset_id e = None)"
    by (simp add: inj_on_def sanitizeItem_def)
  note T = C2_insert_with_defaults [OF h1 h2, of ?ck ?g 1 "[]"]
  from conjunct1 [OF T]
  have ins: "mergeAssets ?ck (\<lambda>i. ?g (1 + i)) [?fund] (?before @ [sanitizeItem ''s'' ?i1]) =
       mergeAssets ?ck (\<lambda>i. ?g (1 + i)) [?fund] ?before @
         [\<lparr> asset_id = Some ''uuu'', name = Some ''Stock X'', category = Some ''Other'',
        amount = Some 0, returnRate = Some (- 2), currency = Some ''CNY'',
        lastUpdated = Some ''t2'' \<rparr>]"
    by simp
  from mp [OF conjunct2 [OF conjunct2 [OF conjunct2 [OF T]]] h4]
  have dist: "distinct (map asset_id
          (mergeAssets ?ck (\<lambda>i. ?g (1 + i)) [?fund] (?before @ sanitizeItem ''s'' ?i1 # [])))"
    by (rule conjunct1 [OF conjunct2])
  have cur: "mergeAssets ?ck (\<lambda>i. ?g (1 + i)) [?fund] ?before =
      [\<lparr> asset_id = Some ''u'', name = Some ''Fund A'', category = Some ''Fund'',
        amount = Some 12000, returnRate = Some 6, currency = Some ''CNY'',
        lastUpdated = Some ''t1'' \<rparr>]"
    by (simp add: mergeAssets_def mergeExtracted_def sanitizeItem_def spread_def over_def
        AssetCategory_values_def STOCK_def FUND_def BOND_def CRYPTO_def CASH_def OTHER_def)
  from ins dist cur show ?thesis by simp
qed

text \<open>
  C6. A record whose name is missing or empty is skipped: the callback returns at its
  first line and the list in progress stays as it is, wherever the record stands in
  the batch; a batch of such records leaves the list as it was. The callback has no
  failing branch: it is a total function of the record and the list.
\<close>

theorem C6_nameless_record_skipped:
  "(name e = None \<or> name e = Some [] \<longrightarrow> mergeExtracted now uuid e held = held) \<and>
   ((\<forall>e \<in> set es. name e = None \<or> name e = Some []) \<longrightarrow> mergeAssets ck uu held es = held)"
proof -
  have one: "name e = None \<or> name e = Some [] \<longrightarrow> mergeExtracted now uuid e held = held"
    by (auto simp: mergeExtracted_def)
  have "\<And>e. name e = None \<or> name e = Some [] \<Longrightarrow> \<not> truthy_str (name e)"
    by auto
  then have "(\<forall>e \<in> set es. name e = None \<or> name e = Some []) \<longrightarrow> mergeAssets ck uu held es = held"
    unfolding mergeAssets_def by (intro impI forEach_merge_skips) blast
  with one show ?thesis by simp
qed

theorem C6_nameless_record_skipped_witness:
  "mergeExtracted ''t1'' ''u1''
     \<lparr> asset_id = None, name = Some [], category = None, amount = Some 7,
       returnRate = None, currency = None, lastUpdated = None \<rparr>
     [\<lparr> asset_id = Some ''a'', name = Some ''Fund A'', category = Some ''Fund'',
        amount = Some 10000, returnRate = Some 5, currency = Some ''CNY'',
        lastUpdated = Some ''t0'' \<rparr>]
   = [\<lparr> asset_id = Some ''a'', name = Some ''Fund A'', category = Some ''Fund'',
        amount = Some 10000, returnRate = Some 5, currency = Some ''CNY'',
        lastUpdated = Some ''t0'' \<rparr>] \<and>
   mergeAssets (\<lambda>i. ''t1'') (\<lambda>i. ''u1'')
     [\<lparr> asset_id = Some ''a'', name = Some ''Fund A'', category = Some ''Fund'',
        amount = Some 10000, returnRate = Some 5, currency = Some ''CNY'',
        lastUpdated = Some ''t0'' \<rparr>]
     [\<lparr> asset_id = None, name = Some [], category = None, amount = Some 7,
        returnRate = None, currency = None, lastUpdated = None \<rparr>,
      \<lparr> asset_id = None, name = None, category = Some ''Cash'', amount = Some 3,
        returnRate = None, currency = None, lastUpdated = None \<rparr>]
   = [\<lparr> asset_id = Some ''a'', name = Some ''Fund A'', category = Some ''Fund'',
        amount = Some 10000, returnRate = Some 5, currency = Some ''CNY'',
        lastUpdated = Some ''t0'' \<rparr>]"
proof -
  let ?e1 = "\<lparr> asset_id = None, name = Some [], category = None, amount = Some 7,
       returnRate = None, currency = None, lastUpdated = None \<rparr>"
  let ?e2 = "\<lparr> asset_id = None, name = None, category = Some ''Cash'', amount = Some 3,
        returnRate = None, currency = None, lastUpdated = None \<rparr>"
  have h1: "name ?e1 = None \<or> name ?e1 = Some []" by simp
  have h2: "\<forall>e \<in> set [?e1, ?e2]. name e = None \<or> name e = Some []" by simp
  from C6_nameless_record_skipped [of ?e1 _ _ _ "[?e1, ?e2]"] h1 h2
  show ?thesis by blast
qed

text \<open>
  C10. The search for the name runs on the list in progress, which holds what earlier
  records of the same pass pushed. So when two records of a batch have the same name
  (not the empty one: such records are skipped, C6) and no asset of the list before
  the pass has it, the list after the pass holds
  exactly one asset of that name, wherever the two records stand in the batch, and
  the pass up to and with the second record is as long as the pass up to it: the
  second record pushes nothing. For the batch of just these two, the first record pushes the new asset (with the id
  drawn for it) and the second overwrites that asset in place: the result is the old
  list followed by one asset, the spread of the pushed asset and the second record.
\<close>

theorem C10_same_new_name_twice_one_asset:
  assumes "i < j" and "j < length es"
    and "name (es ! i) = Some n" and "name (es ! j) = Some n" and "n \<noteq> []"
    and "\<forall>a \<in> set prev. name a \<noteq> Some n"
  shows "length (filter (\<lambda>a. name a = Some n) (mergeAssets ck uu prev es)) = 1 \<and>
         length (mergeAssets ck uu prev (take (Suc j) es)) = length (mergeAssets ck uu prev (take j es)) \<and>
         mergeAssets ck uu prev [es ! i, es ! j] =
           prev @ [(spread ((es ! i)\<lparr>asset_id := Some (uu 0), lastUpdated := Some (ck 0)\<rparr>) (es ! j))
                     \<lparr>lastUpdated := Some (ck 1)\<rparr>]"
proof -
  have notin: "Some n \<notin> set (map name prev)"
    using assms(6) by auto
  have "es ! i \<in> set es" using assms(1,2) by simp
  with assms(3) have "Some n \<in> name ` set es" by force
  with forEach_merge_count [OF assms(5), of ck uu 0 es prev] notin
  have one: "length (filter (\<lambda>a. name a = Some n) (mergeAssets ck uu prev es)) = 1"
    by (simp add: count_filter_name mergeAssets_def)
  let ?new = "(es ! i)\<lparr>asset_id := Some (uu 0), lastUpdated := Some (ck 0)\<rparr>"
  have tr1: "truthy_str (name (es ! i))" and tr2: "truthy_str (name (es ! j))"
    using assms(3,4,5) by simp_all
  have first: "mergeExtracted (ck 0) (uu 0) (es ! i) prev = prev @ [?new]"
    using mergeExtracted_insert [OF tr1, of prev "ck 0" "uu 0"] assms(3,6) by simp
  have idx: "findIndex (\<lambda>a. name a = Some n) (prev @ [?new]) = int (length prev)"
    using assms(3,6) by (intro findIndex_append_last) simp_all
  have second: "mergeExtracted (ck (Suc 0)) (uu (Suc 0)) (es ! j) (prev @ [?new]) =
      prev @ [(spread ?new (es ! j))\<lparr>lastUpdated := Some (ck (Suc 0))\<rparr>]"
  proof -
    have "mergeExtracted (ck (Suc 0)) (uu (Suc 0)) (es ! j) (prev @ [?new]) =
        (prev @ [?new])[nat (int (length prev)) :=
          (spread ((prev @ [?new]) ! nat (int (length prev))) (es ! j))
            \<lparr>lastUpdated := Some (ck (Suc 0))\<rparr>]"
      unfolding mergeExtracted_def Let_def using tr2 assms(4) idx by simp
    then show ?thesis by simp
  qed
  have two: "mergeAssets ck uu prev [es ! i, es ! j] =
      prev @ [(spread ?new (es ! j))\<lparr>lastUpdated := Some (ck 1)\<rparr>]"
    by (simp add: mergeAssets_def first second)
  let ?before = "forEach_merge ck uu 0 (take j es) prev"
  have "es ! i \<in> set (take j es)"
    using assms(1,2) by (metis in_set_conv_nth length_take less_imp_le_nat min.absorb2 nth_take)
  with assms(3) have "Some n \<in> name ` set (take j es)" by force
  from forEach_merge_has_name [OF assms(5) this, of ck uu 0 prev]
  have there: "name (es ! j) \<in> set (map name ?before)"
    using assms(4) by simp
  have "take (Suc j) es = take j es @ [es ! j]"
    using assms(2) by (simp add: take_Suc_conv_app_nth)
  then have "forEach_merge ck uu 0 (take (Suc j) es) prev =
      mergeExtracted (ck j) (uu j) (es ! j) ?before"
    using assms(2) by (simp add: forEach_merge_append)
  moreover have "map name (mergeExtracted (ck j) (uu j) (es ! j) ?before) = map name ?before"
    using there by (simp add: mergeExtracted_names)
  ultimately have "length (forEach_merge ck uu 0 (take (Suc j) es) prev) = length ?before"
    by (metis length_map)
  then have inplace: "length (mergeAssets ck uu prev (take (Suc j) es)) =
      length (mergeAssets ck uu prev (take j es))"
    by (simp add: mergeAssets_def)
  from one inplace two show ?thesis by simp
qed

theorem C10_same_new_name_twice_one_asset_witness:
  "mergeAssets (\<lambda>i. if i = 0 then ''t1'' else ''t2'') (\<lambda>i. if i = 0 then ''u1'' else ''u2'')
     [\<lparr> asset_id = Some ''a'', name = Some ''Fund A'', category = Some ''Fund'',
        amount = Some 10000, returnRate = Some 5, currency = Some ''CNY'',
        lastUpdated = Some ''t0'' \<rparr>]
     [\<lparr> asset_id = None, name = Some ''Stock X'', category = Some ''Stock'', amount = Some 5000,
        returnRate = Some (- 2), currency = Some ''CNY'', lastUpdated = Some ''s1'' \<rparr>,
      \<lparr> asset_id = None, name = Some ''Stock X'', category = Some ''Stock'', amount = Some 5100,
        returnRate = Some 1, currency = Some ''CNY'', lastUpdated = Some ''s2'' \<rparr>]
   = [\<lparr> asset_id = Some ''a'', name = Some ''Fund A'', category = Some ''Fund'',
        amount = Some 10000, returnRate = Some 5, currency = Some ''CNY'',
        lastUpdated = Some ''t0'' \<rparr>,
      \<lparr> asset_id = Some ''u1'', name = Some ''Stock X'', category = Some ''Stock'', amount = Some 5100,
        returnRate = Some 1, currency = Some ''CNY'', lastUpdated = Some ''t2'' \<rparr>]"
proof -
  let ?e1 = "\<lparr> asset_id = None, name = Some ''Stock X'', category = Some ''Stock'', amount = Some 5000,
        returnRate = Some (- 2), currency = Some ''CNY'', lastUpdated = Some ''s1'' \<rparr>"
  let ?e2 = "\<lparr> asset_id = None, name = Some ''Stock X'', category = Some ''Stock'', amount = Some 5100,
        returnRate = Some 1, currency = Some ''CNY'', lastUpdated = Some ''s2'' \<rparr>"
  let ?prev = "[\<lparr> asset_id = Some ''a'', name = Some ''Fund A'', category = Some ''Fund'',
        amount = Some 10000, returnRate = Some 5, currency = Some ''CNY'',
        lastUpdated = Some ''t0'' \<rparr>]"
  have h1: "(0::nat) < 1" by simp
  have h2: "1 < length [?e1, ?e2]" by simp
  have h3: "name ([?e1, ?e2] ! 0) = Some ''Stock X''" by simp
  have h4: "name ([?e1, ?e2] ! 1) = Some ''Stock X''" by simp
  have h5: "''Stock X'' \<noteq> []" by simp
  have h6: "\<forall>a \<in> set ?prev. name a \<noteq> Some ''Stock X''" by simp
  from C10_same_new_name_twice_one_asset [OF h1 h2 h3 h4 h5 h6,
      of "\<lambda>i. if i = 0 then ''t1'' else ''t2''" "\<lambda>i. if i = 0 then ''u1'' else ''u2''"]
  show ?thesis by (simp add: spread_def over_def)
qed

section \<open>History update\<close>

text \<open>
  C3. The history update on the day \<open>D\<close> (ten characters, as
  \<^verbatim>\<open>toISOString().split('T')[0]\<close> gives them for the years 0000 to 9999). A point is on the day \<open>D\<close> when
  its date is \<open>D\<close> or starts with it (\<open>day_of\<close>; for the dates the code writes this
  is equality, \<open>day_of_day\<close>). When the sequence has a point on that day, the first
  such point is replaced by the new point where it stands and the length stays;
  otherwise the new point is appended and the length grows by one. So a sequence
  with at most one point per day is again one after the update. A sequence whose
  dates are all days of ten characters stays one, and for such dates the day of a
  point is its date, so that "on the day \<open>D\<close>" reads "dated \<open>D\<close>".
\<close>

theorem C3_history_replace_or_append:
  assumes "length D = 10"
  shows "((\<exists>h \<in> set H. day_of (date h) = D) \<longrightarrow>
            length (updateHistory D nw rr ex H) = length H \<and>
            (\<exists>i < length H. day_of (date (H ! i)) = D \<and> (\<forall>j < i. day_of (date (H ! j)) \<noteq> D) \<and>
               updateHistory D nw rr ex H = H[i := newPoint D nw rr ex])) \<and>
         (\<not> (\<exists>h \<in> set H. day_of (date h) = D) \<longrightarrow>
            length (updateHistory D nw rr ex H) = length H + 1 \<and>
            updateHistory D nw rr ex H = H @ [newPoint D nw rr ex]) \<and>
         (distinct (map (\<lambda>h. day_of (date h)) H) \<longrightarrow>
            distinct (map (\<lambda>h. day_of (date h)) (updateHistory D nw rr ex H))) \<and>
         ((\<forall>h \<in> set H. length (date h) = 10) \<longrightarrow>
            (\<forall>h \<in> set H. day_of (date h) = date h) \<and>
            (\<forall>h \<in> set (updateHistory D nw rr ex H). length (date h) = 10 \<and> day_of (date h) = date h))"
proof -
  let ?P = "\<lambda>h. prefix D (date h)"
  let ?k = "findIndex ?P H"
  let ?np = "newPoint D nw rr ex"
  have P_day: "\<And>h. ?P h \<longleftrightarrow> day_of (date h) = D"
    using assms by (simp add: prefix_day)
  have np_day: "day_of (date ?np) = D"
    using assms by (simp add: newPoint_def day_of_day)
  have days: "(\<forall>h \<in> set H. length (date h) = 10) \<longrightarrow>
            (\<forall>h \<in> set H. day_of (date h) = date h) \<and>
            (\<forall>h \<in> set (updateHistory D nw rr ex H). length (date h) = 10 \<and> day_of (date h) = date h)"
  proof
    assume all: "\<forall>h \<in> set H. length (date h) = 10"
    then have before: "\<forall>h \<in> set H. day_of (date h) = date h"
      by (simp add: day_of_day)
    have after: "\<forall>h \<in> set (updateHistory D nw rr ex H). length (date h) = 10 \<and> day_of (date h) = date h"
    proof
      fix h
      assume h: "h \<in> set (updateHistory D nw rr ex H)"
      from h have "h \<in> insert ?np (set H)"
        using set_update_subset_insert [of H _ ?np]
        by (auto simp: updateHistory_def Let_def split: if_splits)
      with all assms have "length (date h) = 10"
        by (auto simp: newPoint_def)
      then show "length (date h) = 10 \<and> day_of (date h) = date h"
        by (simp add: day_of_day)
    qed
    from before after
    show "(\<forall>h \<in> set H. day_of (date h) = date h) \<and>
            (\<forall>h \<in> set (updateHistory D nw rr ex H). length (date h) = 10 \<and> day_of (date h) = date h)"
      by blast
  qed
  show ?thesis
  proof (cases "?k \<ge> 0")
    case True
    from findIndex_first [OF True]
    have lt: "nat ?k < length H" and hit: "day_of (date (H ! nat ?k)) = D"
      and first: "\<forall>j < nat ?k. day_of (date (H ! j)) \<noteq> D"
      by (auto simp: P_day)
    have ex: "\<exists>h \<in> set H. day_of (date h) = D"
      using True by (simp add: findIndex_nonneg_iff P_day)
    have upd: "updateHistory D nw rr ex H = H[nat ?k := ?np]"
      using True by (simp add: updateHistory_def Let_def)
    have "map (\<lambda>h. day_of (date h)) (H[nat ?k := ?np]) = map (\<lambda>h. day_of (date h)) H"
      using lt hit np_day by (simp add: map_update list_update_same_conv)
    then have inv: "distinct (map (\<lambda>h. day_of (date h)) H) \<longrightarrow>
            distinct (map (\<lambda>h. day_of (date h)) (updateHistory D nw rr ex H))"
      by (simp add: upd)
    have "\<exists>i < length H. day_of (date (H ! i)) = D \<and> (\<forall>j < i. day_of (date (H ! j)) \<noteq> D) \<and>
               updateHistory D nw rr ex H = H[i := ?np]"
      using lt hit first upd by blast
    with upd have found: "(\<exists>h \<in> set H. day_of (date h) = D) \<longrightarrow>
            length (updateHistory D nw rr ex H) = length H \<and>
            (\<exists>i < length H. day_of (date (H ! i)) = D \<and> (\<forall>j < i. day_of (date (H ! j)) \<noteq> D) \<and>
               updateHistory D nw rr ex H = H[i := newPoint D nw rr ex])"
      by simp
    from ex have missing: "\<not> (\<exists>h \<in> set H. day_of (date h) = D) \<longrightarrow>
            length (updateHistory D nw rr ex H) = length H + 1 \<and>
            updateHistory D nw rr ex H = H @ [newPoint D nw rr ex]"
      by blast
    show ?thesis by (intro conjI found missing inv days)
  next
    case False
    then have none: "\<not> (\<exists>h \<in> set H. day_of (date h) = D)"
      by (simp add: findIndex_nonneg_iff P_day)
    have app: "updateHistory D nw rr ex H = H @ [?np]"
      using False by (simp add: updateHistory_def Let_def)
    have inv: "distinct (map (\<lambda>h. day_of (date h)) H) \<longrightarrow>
            distinct (map (\<lambda>h. day_of (date h)) (updateHistory D nw rr ex H))"
      using none np_day by (auto simp: app)
    from none have found: "(\<exists>h \<in> set H. day_of (date h) = D) \<longrightarrow>
            length (updateHistory D nw rr ex H) = length H \<and>
            (\<exists>i < length H. day_of (date (H ! i)) = D \<and> (\<forall>j < i. day_of (date (H ! j)) \<noteq> D) \<and>
               updateHistory D nw rr ex H = H[i := newPoint D nw rr ex])"
      by blast
    from app have missing: "\<not> (\<exists>h \<in> set H. day_of (date h) = D) \<longrightarrow>
            length (updateHistory D nw rr ex H) = length H + 1 \<and>
            updateHistory D nw rr ex H = H @ [newPoint D nw rr ex]"
      by simp
    show ?thesis by (intro conjI found missing inv days)
  qed
qed

theorem C3_history_replace_or_append_witness:
  "updateHistory ''2026-11-02'' (Num 120) (Num 4) []
     [\<lparr> date = ''2026-11-01'', point_totalNetWorth = Num 100, point_totalReturnRate = Num 2 \<rparr>,
      \<lparr> date = ''2026-11-02'', point_totalNetWorth = Num 110, point_totalReturnRate = Num 3 \<rparr>]
   = [\<lparr> date = ''2026-11-01'', point_totalNetWorth = Num 100, point_totalReturnRate = Num 2 \<rparr>,
      \<lparr> date = ''2026-11-02'', point_totalNetWorth = Num 120, point_totalReturnRate = Num 4 \<rparr>] \<and>
   updateHistory ''2026-11-02'' (Num 120) (Num 4) []
     [\<lparr> date = ''2026-11-01'', point_totalNetWorth = Num 100, point_totalReturnRate = Num 2 \<rparr>]
   = [\<lparr> date = ''2026-11-01'', point_totalNetWorth = Num 100, point_totalReturnRate = Num 2 \<rparr>,
      \<lparr> date = ''2026-11-02'', point_totalNetWorth = Num 120, point_totalReturnRate = Num 4 \<rparr>]"
proof -
  let ?p1 = "\<lparr> date = ''2026-11-01'', point_totalNetWorth = Num 100, point_totalReturnRate = Num 2 \<rparr>"
  let ?p2 = "\<lparr> date = ''2026-11-02'', point_totalNetWorth = Num 110, point_totalReturnRate = Num 3 \<rparr>"
  have len: "length ''2026-11-02'' = 10" by simp
  have there: "\<exists>h \<in> set [?p1, ?p2]. day_of (date h) = ''2026-11-02''"
    by (simp add: day_of_def)
  have absent: "\<not> (\<exists>h \<in> set [?p1]. day_of (date h) = ''2026-11-02'')"
    by (simp add: day_of_def)
  have one: "distinct (map (\<lambda>h. day_of (date h)) [?p1, ?p2])"
    by (simp add: day_of_def)
  from C3_history_replace_or_append [OF len, of "[?p1, ?p2]" "Num 120" "Num 4" "[]"] there one
    C3_history_replace_or_append [OF len, of "[?p1]" "Num 120" "Num 4" "[]"] absent
  show ?thesis
    by (simp add: updateHistory_def newPoint_def extractedSum_def Let_def)
qed

text \<open>
  C4. The net worth written into today's point. After an upload that the extraction
  client answered with the records \<open>es\<close>, the history holds a point for today whose
  net worth is the total of the list before the merge plus the sum of the records'
  amounts, an absent amount counting as zero. It is not the total of the merged list
  in this case: amounts being present and not negative, as soon as one record
  overwrites an asset that held an amount other than zero, the written value differs
  from (exceeds) the recomputed total, by what was overwritten.
\<close>

theorem C4_written_net_worth:
  assumes "fileToGenerativePart w f = Inr b"
    and "parseHoldingsScreenshot (generateContent w) (JSON_parse w) (stamp w) b = Inr es"
  shows "\<exists>p \<in> set (history (fst (handleFileUpload w (Some f) s))).
           date p = split_T_0 (todayISO w) \<and>
           point_totalNetWorth p =
             js_add (totalNetWorth (assets s))
               (Num (sum_list (map (\<lambda>e. case amount e of Some x \<Rightarrow> x | None \<Rightarrow> 0) es))) \<and>
           ((\<forall>a \<in> set (assets s). \<exists>x. amount a = Some x \<and> 0 \<le> x) \<and>
            (\<forall>e \<in> set es. \<exists>x. amount e = Some x \<and> 0 \<le> x) \<and>
            (\<exists>e \<in> set es. truthy_str (name e) \<and>
               (\<exists>a x. find (\<lambda>a. name a = name e) (assets s) = Some a \<and> amount a = Some x \<and> x \<noteq> 0))
            \<longrightarrow> point_totalNetWorth p \<noteq> totalNetWorth (assets (fst (handleFileUpload w (Some f) s))) \<and>
                (\<exists>x y. point_totalNetWorth p = Num x \<and>
                   totalNetWorth (assets (fst (handleFileUpload w (Some f) s))) = Num y \<and> y < x))"
proof -
  let ?D = "split_T_0 (todayISO w)"
  let ?p = "newPoint ?D (totalNetWorth (assets s)) (totalReturnRate (assets s)) es"
  let ?s' = "fst (handleFileUpload w (Some f) s)"
  have hist: "history ?s' =
      updateHistory ?D (totalNetWorth (assets s)) (totalReturnRate (assets s)) es (history s)"
    and post: "assets ?s' = mergeAssets (clock w) (randomUUID w) (assets s) es"
    using assms by (simp_all add: handleFileUpload_def)
  have mem: "?p \<in> set (history ?s')"
    unfolding hist by (rule history_has_newPoint)
  have d: "date ?p = ?D" by (simp add: newPoint_def)
  have "(\<lambda>e. case amount e of Some x \<Rightarrow> x | None \<Rightarrow> 0) = amount_or_0"
    by (rule ext) (simp add: amount_or_0_case)
  then have v: "point_totalNetWorth ?p =
      js_add (totalNetWorth (assets s))
        (Num (sum_list (map (\<lambda>e. case amount e of Some x \<Rightarrow> x | None \<Rightarrow> 0) es)))"
    by (simp add: newPoint_def extractedSum_eq)
  have diff: "(\<forall>a \<in> set (assets s). \<exists>x. amount a = Some x \<and> 0 \<le> x) \<and>
            (\<forall>e \<in> set es. \<exists>x. amount e = Some x \<and> 0 \<le> x) \<and>
            (\<exists>e \<in> set es. truthy_str (name e) \<and>
               (\<exists>a x. find (\<lambda>a. name a = name e) (assets s) = Some a \<and> amount a = Some x \<and> x \<noteq> 0))
            \<longrightarrow> point_totalNetWorth ?p \<noteq> totalNetWorth (assets ?s') \<and>
                (\<exists>x y. point_totalNetWorth ?p = Num x \<and> totalNetWorth (assets ?s') = Num y \<and> y < x)"
  proof
    assume h: "(\<forall>a \<in> set (assets s). \<exists>x. amount a = Some x \<and> 0 \<le> x) \<and>
            (\<forall>e \<in> set es. \<exists>x. amount e = Some x \<and> 0 \<le> x) \<and>
            (\<exists>e \<in> set es. truthy_str (name e) \<and>
               (\<exists>a x. find (\<lambda>a. name a = name e) (assets s) = Some a \<and> amount a = Some x \<and> x \<noteq> 0))"
    then have held: "\<forall>a \<in> set (assets s). amount a \<noteq> None \<and> 0 \<le> amount_or_0 a"
      and recs: "\<forall>e \<in> set es. amount e \<noteq> None \<and> 0 \<le> amount_or_0 e"
      by auto
    from h obtain e a x where e: "e \<in> set es" "truthy_str (name e)"
      "find (\<lambda>a. name a = name e) (assets s) = Some a" "amount a = Some x" "x \<noteq> 0"
      by blast
    from e(3) have "a \<in> set (assets s)" by (auto simp: find_Some_iff)
    with held e(4,5) have "0 < amount_or_0 a" by fastforce
    with e have hit: "\<exists>e \<in> set es. truthy_str (name e) \<and>
           (\<exists>a. find (\<lambda>a. name a = name e) (assets s) = Some a \<and> 0 < amount_or_0 a)"
      by blast
    have lt: "sum_list (map amount_or_0 (mergeAssets (clock w) (randomUUID w) (assets s) es)) <
        sum_list (map amount_or_0 (assets s)) + sum_list (map amount_or_0 es)"
      unfolding mergeAssets_def by (rule forEach_sum_lt [OF recs held hit])
    have "\<forall>a \<in> set (mergeAssets (clock w) (randomUUID w) (assets s) es). amount a \<noteq> None"
      unfolding mergeAssets_def using forEach_nonneg_present [OF recs held] by blast
    then have after: "totalNetWorth (assets ?s') =
        Num (sum_list (map amount_or_0 (mergeAssets (clock w) (randomUUID w) (assets s) es)))"
      unfolding post by (rule totalNetWorth_amount_or_0)
    from held have before: "totalNetWorth (assets s) = Num (sum_list (map amount_or_0 (assets s)))"
      by (intro totalNetWorth_amount_or_0) simp
    have "point_totalNetWorth ?p =
        Num (sum_list (map amount_or_0 (assets s)) + sum_list (map amount_or_0 es))"
      by (simp add: newPoint_def extractedSum_eq before)
    with after lt show "point_totalNetWorth ?p \<noteq> totalNetWorth (assets ?s') \<and>
        (\<exists>x y. point_totalNetWorth ?p = Num x \<and> totalNetWorth (assets ?s') = Num y \<and> y < x)"
      by simp
  qed
  from mem d v diff show ?thesis by blast
qed

text \<open>
  A different new amount alone does not make the two values differ. An asset that
  held the amount 0 (an empty wallet) is overwritten with the amount 5: the value
  written for today is 0 + 5 = 5, and the total recomputed over the merged list is 5
  as well.
\<close>

theorem C4_written_net_worth_counterexample:
  "handleFileUpload
     \<lparr> fileToGenerativePart = (\<lambda>f. Inr ''img''),
       generateContent = (\<lambda>b. Inr (Some ''[{...}]'')),
       JSON_parse = (\<lambda>t. Inr (Array [Some \<lparr> item_name = Some ''Wallet'', item_category = Some ''Cash'',
          item_amount = Some 5, item_returnRate = Some 0, item_currency = Some ''CNY'' \<rparr>])),
       analysisContent = (\<lambda>xs. Inl ''unused''), JSON_parse_analysis = (\<lambda>t. Inl ''unused''),
       stamp = (\<lambda>i. ''t1''), clock = (\<lambda>i. ''t2''), randomUUID = (\<lambda>i. ''u1''),
       todayISO = ''2026-11-02T08:00:00.000Z'' \<rparr>
     (Some ''shot.png'')
     \<lparr> assets = [\<lparr> asset_id = Some ''a1'', name = Some ''Wallet'', category = Some ''Cash'',
          amount = Some 0, returnRate = Some 0, currency = Some ''CNY'', lastUpdated = Some ''t0'' \<rparr>],
       history = [], analysis = None, isUploading = False, isAnalyzing = False \<rparr>
   = (\<lparr> assets = [\<lparr> asset_id = Some ''a1'', name = Some ''Wallet'', category = Some ''Cash'',
          amount = Some 5, returnRate = Some 0, currency = Some ''CNY'', lastUpdated = Some ''t2'' \<rparr>],
       history = [\<lparr> date = ''2026-11-02'', point_totalNetWorth = Num 5, point_totalReturnRate = Num 0 \<rparr>],
       analysis = None, isUploading = False, isAnalyzing = False \<rparr>,
      [ExtractionRequest ''img'', Alert UploadSucceeded]) \<and>
   totalNetWorth [\<lparr> asset_id = Some ''a1'', name = Some ''Wallet'', category = Some ''Cash'',
          amount = Some 5, returnRate = Some 0, currency = Some ''CNY'', lastUpdated = Some ''t2'' \<rparr>]
   = Num 5"
  by (simp add: handleFileUpload_def parseHoldingsScreenshot_def
      sanitizeItem_def AssetCategory_values_def STOCK_def FUND_def BOND_def CRYPTO_def CASH_def
      OTHER_def mergeAssets_def mergeExtracted_def spread_def over_def Let_def
      updateHistory_def newPoint_def extractedSum_def totalNetWorth_def totalReturnRate_def
      totalReturn_def split_T_0_def)

theorem C4_written_net_worth_witness:
  "history (fst (handleFileUpload
     \<lparr> fileToGenerativePart = (\<lambda>f. Inr ''img''),
       generateContent = (\<lambda>b. Inr (Some ''[{...}]'')),
       JSON_parse = (\<lambda>t. Inr (Array [Some \<lparr> item_name = Some ''Fund A'', item_category = Some ''Fund'',
          item_amount = Some 12000, item_returnRate = Some 5, item_currency = Some ''CNY'' \<rparr>])),
       analysisContent = (\<lambda>xs. Inl ''unused''), JSON_parse_analysis = (\<lambda>t. Inl ''unused''),
       stamp = (\<lambda>i. ''t1''), clock = (\<lambda>i. ''t2''), randomUUID = (\<lambda>i. ''u1''),
       todayISO = ''2026-11-02T08:00:00.000Z'' \<rparr>
     (Some ''shot.png'')
     \<lparr> assets = [\<lparr> asset_id = Some ''a1'', name = Some ''Fund A'', category = Some ''Fund'',
          amount = Some 10000, returnRate = Some 5, currency = Some ''CNY'', lastUpdated = Some ''t0'' \<rparr>],
       history = [], analysis = None, isUploading = False, isAnalyzing = False \<rparr>))
   = [\<lparr> date = ''2026-11-02'', point_totalNetWorth = Num 22000, point_totalReturnRate = Num 5 \<rparr>] \<and>
   totalNetWorth (assets (fst (handleFileUpload
     \<lparr> fileToGenerativePart = (\<lambda>f. Inr ''img''),
       generateContent = (\<lambda>b. Inr (Some ''[{...}]'')),
       JSON_parse = (\<lambda>t. Inr (Array [Some \<lparr> item_name = Some ''Fund A'', item_category = Some ''Fund'',
          item_amount = Some 12000, item_returnRate = Some 5, item_currency = Some ''CNY'' \<rparr>])),
       analysisContent = (\<lambda>xs. Inl ''unused''), JSON_parse_analysis = (\<lambda>t. Inl ''unused''),
       stamp = (\<lambda>i. ''t1''), clock = (\<lambda>i. ''t2''), randomUUID = (\<lambda>i. ''u1''),
       todayISO = ''2026-11-02T08:00:00.000Z'' \<rparr>
     (Some ''shot.png'')
     \<lparr> assets = [\<lparr> asset_id = Some ''a1'', name = Some ''Fund A'', category = Some ''Fund'',
          amount = Some 10000, returnRate = Some 5, currency = Some ''CNY'', lastUpdated = Some ''t0'' \<rparr>],
       history = [], analysis = None, isUploading = False, isAnalyzing = False \<rparr>)))
   = Num 12000"
proof -
  let ?w = "\<lparr> fileToGenerativePart = (\<lambda>f. Inr ''img''),
       generateContent = (\<lambda>b. Inr (Some ''[{...}]'')),
       JSON_parse = (\<lambda>t. Inr (Array [Some \<lparr> item_name = Some ''Fund A'', item_category = Some ''Fund'',
          item_amount = Some 12000, item_returnRate = Some 5, item_currency = Some ''CNY'' \<rparr>])),
       analysisContent = (\<lambda>xs. Inl ''unused''), JSON_parse_analysis = (\<lambda>t. Inl ''unused''),
       stamp = (\<lambda>i. ''t1''), clock = (\<lambda>i. ''t2''), randomUUID = (\<lambda>i. ''u1''),
       todayISO = ''2026-11-02T08:00:00.000Z'' \<rparr>"
  let ?s = "\<lparr> assets = [\<lparr> asset_id = Some ''a1'', name = Some ''Fund A'', category = Some ''Fund'',
          amount = Some 10000, returnRate = Some 5, currency = Some ''CNY'', lastUpdated = Some ''t0'' \<rparr>],
       history = [], analysis = None, isUploading = False, isAnalyzing = False \<rparr>"
  let ?es = "[\<lparr> asset_id = None, name = Some ''Fund A'', category = Some ''Fund'',
          amount = Some 12000, returnRate = Some 5, currency = Some ''CNY'', lastUpdated = Some ''t1'' \<rparr>]"
  have h1: "fileToGenerativePart ?w ''shot.png'' = Inr ''img''" by simp
  have h2: "parseHoldingsScreenshot (generateContent ?w) (JSON_parse ?w) (stamp ?w) ''img'' = Inr ?es"
    by (simp add: parseHoldingsScreenshot_def sanitizeItem_def
        AssetCategory_values_def STOCK_def FUND_def BOND_def CRYPTO_def CASH_def OTHER_def)
  have h3: "(\<forall>a \<in> set (assets ?s). \<exists>x. amount a = Some x \<and> 0 \<le> x) \<and>
            (\<forall>e \<in> set ?es. \<exists>x. amount e = Some x \<and> 0 \<le> x) \<and>
            (\<exists>e \<in> set ?es. truthy_str (name e) \<and>
               (\<exists>a x. find (\<lambda>a. name a = name e) (assets ?s) = Some a \<and> amount a = Some x \<and> x \<noteq> 0))"
    by simp
  from C4_written_net_worth [OF h1 h2, of ?s] h3
  show ?thesis
    by (simp add: handleFileUpload_def parseHoldingsScreenshot_def
      sanitizeItem_def AssetCategory_values_def STOCK_def FUND_def BOND_def CRYPTO_def CASH_def
      OTHER_def mergeAssets_def mergeExtracted_def spread_def over_def Let_def
      updateHistory_def newPoint_def extractedSum_def totalNetWorth_def totalReturnRate_def
      totalReturn_def split_T_0_def)
qed

section \<open>Derived metrics\<close>

text \<open>
  C5. The three values App derives from the asset list. For a list of assets as the
  interface declares them (every asset has its amount and its return rate), the total
  net worth is the sum of the amounts, the total return is the sum of amount times
  return rate over 100, and the weighted return rate is the total return over the
  total net worth times 100 when the total net worth is positive. When the total net
  worth is zero the weighted return rate is 0, whatever the return rates are (the
  guard \<^verbatim>\<open>totalNetWorth > 0\<close> comes before the division).
\<close>

theorem C5_derived_metrics:
  "((\<forall>a \<in> set held. amount a \<noteq> None) \<longrightarrow>
      totalNetWorth held = Num (sum_list (map (\<lambda>a. the (amount a)) held))) \<and>
   ((\<forall>a \<in> set held. amount a \<noteq> None \<and> returnRate a \<noteq> None) \<longrightarrow>
      totalReturn held =
        Num (sum_list (map (\<lambda>a. the (amount a) * (the (returnRate a) / 100)) held)) \<and>
      (sum_list (map (\<lambda>a. the (amount a)) held) > 0 \<longrightarrow>
         totalReturnRate held =
           Num (sum_list (map (\<lambda>a. the (amount a) * (the (returnRate a) / 100)) held) /
                sum_list (map (\<lambda>a. the (amount a)) held) * 100))) \<and>
   (totalNetWorth held = Num 0 \<longrightarrow> totalReturnRate held = Num 0)"
proof -
  have nw: "(\<forall>a \<in> set held. amount a \<noteq> None) \<longrightarrow>
      totalNetWorth held = Num (sum_list (map (\<lambda>a. the (amount a)) held))"
    by (simp add: totalNetWorth_present)
  have rate: "(\<forall>a \<in> set held. amount a \<noteq> None \<and> returnRate a \<noteq> None) \<longrightarrow>
      totalReturn held =
        Num (sum_list (map (\<lambda>a. the (amount a) * (the (returnRate a) / 100)) held)) \<and>
      (sum_list (map (\<lambda>a. the (amount a)) held) > 0 \<longrightarrow>
         totalReturnRate held =
           Num (sum_list (map (\<lambda>a. the (amount a) * (the (returnRate a) / 100)) held) /
                sum_list (map (\<lambda>a. the (amount a)) held) * 100))"
  proof
    assume typed: "\<forall>a \<in> set held. amount a \<noteq> None \<and> returnRate a \<noteq> None"
    then have a: "totalNetWorth held = Num (sum_list (map (\<lambda>a. the (amount a)) held))"
      by (simp add: totalNetWorth_present)
    from typed have b: "totalReturn held =
        Num (sum_list (map (\<lambda>a. the (amount a) * (the (returnRate a) / 100)) held))"
      by (rule totalReturn_present)
    show "totalReturn held =
        Num (sum_list (map (\<lambda>a. the (amount a) * (the (returnRate a) / 100)) held)) \<and>
      (sum_list (map (\<lambda>a. the (amount a)) held) > 0 \<longrightarrow>
         totalReturnRate held =
           Num (sum_list (map (\<lambda>a. the (amount a) * (the (returnRate a) / 100)) held) /
                sum_list (map (\<lambda>a. the (amount a)) held) * 100))"
      unfolding totalReturnRate_def a b by simp
  qed
  have zero: "totalNetWorth held = Num 0 \<longrightarrow> totalReturnRate held = Num 0"
    by (simp add: totalReturnRate_def)
  from nw rate zero show ?thesis by blast
qed

theorem C5_derived_metrics_witness:
  "totalNetWorth
     [\<lparr> asset_id = Some ''a'', name = Some ''Fund A'', category = Some ''Fund'', amount = Some 100,
        returnRate = Some 10, currency = Some ''CNY'', lastUpdated = Some ''t0'' \<rparr>,
      \<lparr> asset_id = Some ''b'', name = Some ''Bond B'', category = Some ''Bond'', amount = Some 300,
        returnRate = Some 2, currency = Some ''CNY'', lastUpdated = Some ''t0'' \<rparr>] = Num 400 \<and>
   totalReturn
     [\<lparr> asset_id = Some ''a'', name = Some ''Fund A'', category = Some ''Fund'', amount = Some 100,
        returnRate = Some 10, currency = Some ''CNY'', lastUpdated = Some ''t0'' \<rparr>,
      \<lparr> asset_id = Some ''b'', name = Some ''Bond B'', category = Some ''Bond'', amount = Some 300,
        returnRate = Some 2, currency = Some ''CNY'', lastUpdated = Some ''t0'' \<rparr>] = Num 16 \<and>
   totalReturnRate
     [\<lparr> asset_id = Some ''a'', name = Some ''Fund A'', category = Some ''Fund'', amount = Some 100,
        returnRate = Some 10, currency = Some ''CNY'', lastUpdated = Some ''t0'' \<rparr>,
      \<lparr> asset_id = Some ''b'', name = Some ''Bond B'', category = Some ''Bond'', amount = Some 300,
        returnRate = Some 2, currency = Some ''CNY'', lastUpdated = Some ''t0'' \<rparr>] = Num 4 \<and>
   totalReturnRate
     [\<lparr> asset_id = Some ''c'', name = Some ''Empty'', category = Some ''Cash'', amount = Some 0,
        returnRate = Some 50, currency = Some ''CNY'', lastUpdated = Some ''t0'' \<rparr>] = Num 0"
proof -
  let ?held = "[\<lparr> asset_id = Some ''a'', name = Some ''Fund A'', category = Some ''Fund'', amount = Some 100,
        returnRate = Some 10, currency = Some ''CNY'', lastUpdated = Some ''t0'' \<rparr>,
      \<lparr> asset_id = Some ''b'', name = Some ''Bond B'', category = Some ''Bond'', amount = Some 300,
        returnRate = Some 2, currency = Some ''CNY'', lastUpdated = Some ''t0'' \<rparr>]"
  let ?zero = "[\<lparr> asset_id = Some ''c'', name = Some ''Empty'', category = Some ''Cash'', amount = Some 0,
        returnRate = Some 50, currency = Some ''CNY'', lastUpdated = Some ''t0'' \<rparr>]"
  have typed: "\<forall>a \<in> set ?held. amount a \<noteq> None \<and> returnRate a \<noteq> None" by simp
  have pos: "sum_list (map (\<lambda>a. the (amount a)) ?held) > 0" by simp
  have z: "totalNetWorth ?zero = Num 0" by (simp add: totalNetWorth_def)
  from C5_derived_metrics [of ?held] typed pos C5_derived_metrics [of ?zero] z
  show ?thesis by simp
qed

section \<open>Failures of the two services\<close>

text \<open>
  C7. The extraction client answers with the empty list, and throws nothing, when the
  response has no text or an empty one, when the text is not JSON, and when the parsed
  value is not an array of objects (not an array, or an array with a \<^verbatim>\<open>null\<close> in it).
  The upload handler takes the empty list as nothing extracted: the asset list stays
  as it is, and the notice is the one of success. The notice of failure appears
  exactly when an awaited call threw: reading the file, or the remote call of the
  client.
\<close>

theorem C7_malformed_response_is_empty_list:
  "(generateContent w b = Inr None \<or> generateContent w b = Inr (Some []) \<or>
    (\<exists>t. generateContent w b = Inr (Some t) \<and>
       ((\<exists>e. JSON_parse w t = Inl e) \<or> JSON_parse w t = Inr NotAnArray \<or>
        (\<exists>items. JSON_parse w t = Inr (Array items) \<and> None \<in> set items)))
      \<longrightarrow> parseHoldingsScreenshot (generateContent w) (JSON_parse w) (stamp w) b = Inr []) \<and>
   (fileToGenerativePart w f = Inr b \<and>
    parseHoldingsScreenshot (generateContent w) (JSON_parse w) (stamp w) b = Inr []
      \<longrightarrow> assets (fst (handleFileUpload w (Some f) s)) = assets s \<and>
          snd (handleFileUpload w (Some f) s) = [ExtractionRequest b, Alert UploadSucceeded]) \<and>
   (Alert UploadFailed \<in> set (snd (handleFileUpload w file s)) \<longleftrightarrow>
      (\<exists>f'. file = Some f' \<and>
         ((\<exists>e. fileToGenerativePart w f' = Inl e) \<or>
          (\<exists>b' e. fileToGenerativePart w f' = Inr b' \<and> generateContent w b' = Inl e))))"
proof -
  have a: "generateContent w b = Inr None \<or> generateContent w b = Inr (Some []) \<or>
    (\<exists>t. generateContent w b = Inr (Some t) \<and>
       ((\<exists>e. JSON_parse w t = Inl e) \<or> JSON_parse w t = Inr NotAnArray \<or>
        (\<exists>items. JSON_parse w t = Inr (Array items) \<and> None \<in> set items)))
      \<longrightarrow> parseHoldingsScreenshot (generateContent w) (JSON_parse w) (stamp w) b = Inr []"
    using rawData_map_null [of _ "stamp w" 0]
    by (fastforce simp: parseHoldingsScreenshot_def split: sum.splits)
  have b: "fileToGenerativePart w f = Inr b \<and>
    parseHoldingsScreenshot (generateContent w) (JSON_parse w) (stamp w) b = Inr []
      \<longrightarrow> assets (fst (handleFileUpload w (Some f) s)) = assets s \<and>
          snd (handleFileUpload w (Some f) s) = [ExtractionRequest b, Alert UploadSucceeded]"
    by (simp add: handleFileUpload_def mergeAssets_def)
  have c: "Alert UploadFailed \<in> set (snd (handleFileUpload w file s)) \<longleftrightarrow>
      (\<exists>f'. file = Some f' \<and>
         ((\<exists>e. fileToGenerativePart w f' = Inl e) \<or>
          (\<exists>b' e. fileToGenerativePart w f' = Inr b' \<and> generateContent w b' = Inl e)))"
  proof (cases "file")
    case None
    then show ?thesis by (simp add: handleFileUpload_def)
  next
    case (Some f')
    show ?thesis
    proof (cases "fileToGenerativePart w f'")
      case (Inl e)
      with Some show ?thesis by (simp add: handleFileUpload_def)
    next
      case (Inr b')
      show ?thesis
      proof (cases "parseHoldingsScreenshot (generateContent w) (JSON_parse w) (stamp w) b'")
        case (Inl e)
        with parse_throws_iff [of "generateContent w" "JSON_parse w" "stamp w" b']
        obtain e' where "generateContent w b' = Inl e'" by blast
        with Some Inr Inl show ?thesis by (simp add: handleFileUpload_def)
      next
        case ok: (Inr es)
        with parse_throws_iff [of "generateContent w" "JSON_parse w" "stamp w" b']
        have "\<not> (\<exists>e. generateContent w b' = Inl e)" by simp
        with Some Inr ok show ?thesis by (simp add: handleFileUpload_def)
      qed
    qed
  qed
  from a b c show ?thesis by blast
qed

theorem C7_malformed_response_is_empty_list_witness:
  "handleFileUpload
     \<lparr> fileToGenerativePart = (\<lambda>f. Inr ''img''),
       generateContent = (\<lambda>b. Inr None),
       JSON_parse = (\<lambda>t. Inl ''SyntaxError''),
       analysisContent = (\<lambda>xs. Inl ''unused''), JSON_parse_analysis = (\<lambda>t. Inl ''unused''),
       stamp = (\<lambda>i. ''t1''), clock = (\<lambda>i. ''t2''), randomUUID = (\<lambda>i. ''u1''),
       todayISO = ''2026-11-02T08:00:00.000Z'' \<rparr>
     (Some ''shot.png'')
     \<lparr> assets = [\<lparr> asset_id = Some ''a1'', name = Some ''Fund A'', category = Some ''Fund'',
          amount = Some 100, returnRate = Some 10, currency = Some ''CNY'', lastUpdated = Some ''t0'' \<rparr>],
       history = [], analysis = None, isUploading = False, isAnalyzing = False \<rparr>
   = (\<lparr> assets = [\<lparr> asset_id = Some ''a1'', name = Some ''Fund A'', category = Some ''Fund'',
          amount = Some 100, returnRate = Some 10, currency = Some ''CNY'', lastUpdated = Some ''t0'' \<rparr>],
       history = [], analysis = None, isUploading = False, isAnalyzing = False \<rparr>
        \<lparr> history := [\<lparr> date = ''2026-11-02'', point_totalNetWorth = Num 100,
                        point_totalReturnRate = Num 10 \<rparr>] \<rparr>,
      [ExtractionRequest ''img'', Alert UploadSucceeded]) \<and>
   Alert UploadFailed \<in> set (snd (handleFileUpload
     \<lparr> fileToGenerativePart = (\<lambda>f. Inr ''img''),
       generateContent = (\<lambda>b. Inl ''503''),
       JSON_parse = (\<lambda>t. Inl ''SyntaxError''),
       analysisContent = (\<lambda>xs. Inl ''unused''), JSON_parse_analysis = (\<lambda>t. Inl ''unused''),
       stamp = (\<lambda>i. ''t1''), clock = (\<lambda>i. ''t2''), randomUUID = (\<lambda>i. ''u1''),
       todayISO = ''2026-11-02T08:00:00.000Z'' \<rparr>
     (Some ''shot.png'')
     \<lparr> assets = [\<lparr> asset_id = Some ''a1'', name = Some ''Fund A'', category = Some ''Fund'',
          amount = Some 100, returnRate = Some 10, currency = Some ''CNY'', lastUpdated = Some ''t0'' \<rparr>],
       history = [], analysis = None, isUploading = False, isAnalyzing = False \<rparr>))"
proof -
  let ?w = "\<lparr> fileToGenerativePart = (\<lambda>f. Inr ''img''),
       generateContent = (\<lambda>b. Inr None),
       JSON_parse = (\<lambda>t. Inl ''SyntaxError''),
       analysisContent = (\<lambda>xs. Inl ''unused''), JSON_parse_analysis = (\<lambda>t. Inl ''unused''),
       stamp = (\<lambda>i. ''t1''), clock = (\<lambda>i. ''t2''), randomUUID = (\<lambda>i. ''u1''),
       todayISO = ''2026-11-02T08:00:00.000Z'' \<rparr>"
  let ?w' = "\<lparr> fileToGenerativePart = (\<lambda>f. Inr ''img''),
       generateContent = (\<lambda>b. Inl ''503''),
       JSON_parse = (\<lambda>t. Inl ''SyntaxError''),
       analysisContent = (\<lambda>xs. Inl ''unused''), JSON_parse_analysis = (\<lambda>t. Inl ''unused''),
       stamp = (\<lambda>i. ''t1''), clock = (\<lambda>i. ''t2''), randomUUID = (\<lambda>i. ''u1''),
       todayISO = ''2026-11-02T08:00:00.000Z'' \<rparr>"
  let ?s = "\<lparr> assets = [\<lparr> asset_id = Some ''a1'', name = Some ''Fund A'', category = Some ''Fund'',
          amount = Some 100, returnRate = Some 10, currency = Some ''CNY'', lastUpdated = Some ''t0'' \<rparr>],
       history = [], analysis = None, isUploading = False, isAnalyzing = False \<rparr>"
  have empty: "generateContent ?w ''img'' = Inr None" by simp
  have h1: "fileToGenerativePart ?w ''shot.png'' = Inr ''img''" by simp
  from C7_malformed_response_is_empty_list [of ?w "''img''" "''shot.png''" ?s "Some ''shot.png''"] empty
  have h2: "parseHoldingsScreenshot (generateContent ?w) (JSON_parse ?w) (stamp ?w) ''img'' = Inr []"
    by blast
  from C7_malformed_response_is_empty_list [of ?w "''img''" "''shot.png''" ?s "Some ''shot.png''"] h1 h2
  have kept: "assets (fst (handleFileUpload ?w (Some ''shot.png'') ?s)) = assets ?s"
    and said: "snd (handleFileUpload ?w (Some ''shot.png'') ?s) = [ExtractionRequest ''img'', Alert UploadSucceeded]"
    by blast+
  have threw: "\<exists>f'. Some ''shot.png'' = Some f' \<and>
         ((\<exists>e. fileToGenerativePart ?w' f' = Inl e) \<or>
          (\<exists>b' e. fileToGenerativePart ?w' f' = Inr b' \<and> generateContent ?w' b' = Inl e))"
    by simp
  from C7_malformed_response_is_empty_list [of ?w' "''img''" "''shot.png''" ?s "Some ''shot.png''"] threw
  have failed: "Alert UploadFailed \<in> set (snd (handleFileUpload ?w' (Some ''shot.png'') ?s))"
    by blast
  have "handleFileUpload ?w (Some ''shot.png'') ?s
      = (?s\<lparr> history := [\<lparr> date = ''2026-11-02'', point_totalNetWorth = Num 100,
                        point_totalReturnRate = Num 10 \<rparr>] \<rparr>,
         [ExtractionRequest ''img'', Alert UploadSucceeded])"
    using kept said
    by (simp add: handleFileUpload_def parseHoldingsScreenshot_def mergeAssets_def
        updateHistory_def newPoint_def extractedSum_def totalNetWorth_def totalReturnRate_def
        totalReturn_def split_T_0_def Let_def)
  with failed show ?thesis by simp
qed

text \<open>
  C8. Analysis asked for while the asset list is empty: the handler shows the notice
  that assets must be added first and returns. Nothing else happens: no request goes
  to the analysis service (the result does not depend on it), and the state, the
  stored analysis with it, is what it was.
\<close>

theorem C8_analysis_on_empty_holdings:
  "assets s = [] \<Longrightarrow> handleRunAnalysis w s = (s, [Alert AddAssetsFirst])"
  by (simp add: handleRunAnalysis_def)

theorem C8_analysis_on_empty_holdings_witness:
  "handleRunAnalysis
     \<lparr> fileToGenerativePart = (\<lambda>f. Inr f), generateContent = (\<lambda>b. Inr None),
       JSON_parse = (\<lambda>t. Inl ''SyntaxError''),
       analysisContent = (\<lambda>xs. Inr (Some ''{...}'')),
       JSON_parse_analysis = (\<lambda>t. Inr \<lparr> assetAllocationAnalysis = ''new'',
          investmentAdvice = ''new'', adjustmentSuggestions = ''new'' \<rparr>),
       stamp = (\<lambda>i. ''t''), clock = (\<lambda>i. ''t''), randomUUID = (\<lambda>i. ''u''),
       todayISO = ''2026-11-02T08:00:00.000Z'' \<rparr>
     \<lparr> assets = [], history = [],
       analysis = Some \<lparr> assetAllocationAnalysis = ''old'', investmentAdvice = ''old'',
          adjustmentSuggestions = ''old'' \<rparr>,
       isUploading = False, isAnalyzing = False \<rparr>
   = (\<lparr> assets = [], history = [],
        analysis = Some \<lparr> assetAllocationAnalysis = ''old'', investmentAdvice = ''old'',
          adjustmentSuggestions = ''old'' \<rparr>,
        isUploading = False, isAnalyzing = False \<rparr>,
      [Alert AddAssetsFirst])"
proof -
  let ?s = "\<lparr> assets = [], history = [],
       analysis = Some \<lparr> assetAllocationAnalysis = ''old'', investmentAdvice = ''old'',
          adjustmentSuggestions = ''old'' \<rparr>,
       isUploading = False, isAnalyzing = False \<rparr>"
  have h: "assets ?s = []" by simp
  show ?thesis by (rule C8_analysis_on_empty_holdings [OF h])
qed

section \<open>What the sanitizer guarantees\<close>

text \<open>
  C9. Every record the sanitizer builds has a name that is not empty (the placeholder
  when the element has no name or an empty one), a category among the six of the
  enumeration (\<open>Other\<close> when the element's category is not one of them), and an
  amount and a return rate that are numbers (zero when the element has none; the
  conversion's \<open>NaN\<close> is turned into zero). So for every record the extraction client
  returns, the test \<^verbatim>\<open>!extracted.name\<close> of the merge is false and its skip branch
  is not taken.
\<close>

theorem C9_sanitized_records_are_well_formed:
  "(\<exists>n. name (sanitizeItem t item) = Some n \<and> n \<noteq> [] \<and>
        (item_name item = None \<or> item_name item = Some [] \<longrightarrow> n = UNKNOWN_ASSET)) \<and>
   (\<exists>c. category (sanitizeItem t item) = Some c \<and> c \<in> set AssetCategory_values \<and>
        (item_category item \<notin> Some ` set AssetCategory_values \<longrightarrow> c = OTHER)) \<and>
   (\<exists>x. amount (sanitizeItem t item) = Some x \<and> (item_amount item = None \<longrightarrow> x = 0)) \<and>
   (\<exists>x. returnRate (sanitizeItem t item) = Some x \<and> (item_returnRate item = None \<longrightarrow> x = 0)) \<and>
   (parseHoldingsScreenshot g p st b = Inr rs \<longrightarrow> (\<forall>r \<in> set rs. truthy_str (name r)))"
proof -
  have 1: "\<exists>n. name (sanitizeItem t item) = Some n \<and> n \<noteq> [] \<and>
        (item_name item = None \<or> item_name item = Some [] \<longrightarrow> n = UNKNOWN_ASSET)"
    by (auto simp: sanitizeItem_def or_str_nonempty UNKNOWN_ASSET_nonempty)
  have 2: "\<exists>c. category (sanitizeItem t item) = Some c \<and> c \<in> set AssetCategory_values \<and>
        (item_category item \<notin> Some ` set AssetCategory_values \<longrightarrow> c = OTHER)"
    by (cases "item_category item") (auto simp: sanitizeItem_def OTHER_in_values)
  have 3: "\<exists>x. amount (sanitizeItem t item) = Some x \<and> (item_amount item = None \<longrightarrow> x = 0)"
    by (auto simp: sanitizeItem_def)
  have 4: "\<exists>x. returnRate (sanitizeItem t item) = Some x \<and> (item_returnRate item = None \<longrightarrow> x = 0)"
    by (auto simp: sanitizeItem_def)
  have 5: "parseHoldingsScreenshot g p st b = Inr rs \<longrightarrow> (\<forall>r \<in> set rs. truthy_str (name r))"
  proof (intro impI ballI)
    fix r assume "parseHoldingsScreenshot g p st b = Inr rs" "r \<in> set rs"
    then obtain t' item' where "r = sanitizeItem t' item'"
      using parse_result_sanitized by blast
    then show "truthy_str (name r)"
      by (simp add: sanitizeItem_truthy)
  qed
  from 1 2 3 4 5 show ?thesis by blast
qed

theorem C9_sanitized_records_are_well_formed_witness:
  "sanitizeItem ''t''
     \<lparr> item_name = None, item_category = Some ''Gold'', item_amount = None,
       item_returnRate = Some (- 2), item_currency = None \<rparr>
   = \<lparr> asset_id = None, name = Some UNKNOWN_ASSET, category = Some ''Other'', amount = Some 0,
       returnRate = Some (- 2), currency = Some ''CNY'', lastUpdated = Some ''t'' \<rparr> \<and>
   parseHoldingsScreenshot (\<lambda>b. Inr (Some ''[{...}]''))
     (\<lambda>t. Inr (Array [Some \<lparr> item_name = None, item_category = Some ''Gold'', item_amount = None,
       item_returnRate = Some (- 2), item_currency = None \<rparr>])) (\<lambda>i. ''t'') ''img''
   = Inr [\<lparr> asset_id = None, name = Some UNKNOWN_ASSET, category = Some ''Other'', amount = Some 0,
       returnRate = Some (- 2), currency = Some ''CNY'', lastUpdated = Some ''t'' \<rparr>] \<and>
   truthy_str (name \<lparr> asset_id = None, name = Some UNKNOWN_ASSET, category = Some ''Other'', amount = Some 0,
       returnRate = Some (- 2), currency = Some ''CNY'', lastUpdated = Some ''t'' \<rparr>)"
proof -
  let ?item = "\<lparr> item_name = None, item_category = Some ''Gold'', item_amount = None,
       item_returnRate = Some (- 2), item_currency = None \<rparr>"
  let ?rec = "\<lparr> asset_id = None, name = Some UNKNOWN_ASSET, category = Some ''Other'', amount = Some 0,
       returnRate = Some (- 2), currency = Some ''CNY'', lastUpdated = Some ''t'' \<rparr>"
  let ?g = "\<lambda>b :: string. Inr (Some ''[{...}]'') :: error + string option"
  let ?p = "\<lambda>t :: string. Inr (Array [Some ?item]) :: error + parsed"
  have san: "sanitizeItem ''t'' ?item = ?rec"
    by (simp add: sanitizeItem_def AssetCategory_values_def STOCK_def FUND_def BOND_def
        CRYPTO_def CASH_def OTHER_def)
  have parsed: "parseHoldingsScreenshot ?g ?p (\<lambda>i. ''t'') ''img'' = Inr [?rec]"
    by (simp add: parseHoldingsScreenshot_def san)
  from C9_sanitized_records_are_well_formed [of "''t''" ?item ?g ?p "\<lambda>i. ''t''" "''img''" "[?rec]"] parsed
  have "truthy_str (name ?rec)" by simp
  with san parsed show ?thesis by simp
qed

end
